theory Spec2Isabelle
  imports Main "HOL-Library.Sublist"
begin

section \<open>JavaScript strings\<close>

text \<open>
  A JavaScript string is modelled as a \<open>string\<close>: a list of characters, each standing
  for the code unit of the same number (0 to 255). Among these code units the white
  space class of the regular expressions (\<open>\s\<close>) and of \<open>trim\<close> is: space, tab, line
  feed, vertical tab, form feed, carriage return, and the no-break space U+00A0. The
  line terminators that \<open>.\<close> refuses are line feed and carriage return.
\<close>

definition isSpace :: "char \<Rightarrow> bool" where
  "isSpace c =
     (c \<in> set [CHR '' '', CHR 0x09, CHR 0x0A, CHR 0x0B, CHR 0x0C, CHR 0x0D, CHR 0xA0])"

definition isLineTerminator :: "char \<Rightarrow> bool" where
  "isLineTerminator c = (c = CHR 0x0A \<or> c = CHR 0x0D)"

text \<open>A value is falsy when it is \<open>undefined\<close> (\<open>None\<close>) or the empty string.\<close>

fun truthy :: "string option \<Rightarrow> bool" where
  "truthy None = False"
| "truthy (Some s) = (s \<noteq> [])"

text \<open>\<open>a || b\<close> on values that are strings or \<open>undefined\<close>.\<close>

definition js_or :: "string option \<Rightarrow> string option \<Rightarrow> string option" where
  "js_or a b = (if truthy a then a else b)"

text \<open>\<open>s.startsWith(p)\<close> is \<open>prefix p s\<close>. \<open>s.includes(sub)\<close>:\<close>

fun includes_str :: "string \<Rightarrow> string \<Rightarrow> bool" where
  "includes_str [] sub = (sub = [])"
| "includes_str (c # cs) sub = (prefix sub (c # cs) \<or> includes_str cs sub)"

text \<open>
  \<open>s.split(sep)\<close>: the pieces between the occurrences of \<open>sep\<close>, found from the left
  and not overlapping. An empty separator splits into the single characters.
\<close>

fun split_from :: "string \<Rightarrow> string \<Rightarrow> string \<Rightarrow> string list" where
  "split_from sep acc [] = [rev acc]"
| "split_from sep acc (c # cs) =
     (if prefix sep (c # cs)
      then rev acc # split_from sep [] (drop (length sep - 1) cs)
      else split_from sep (c # acc) cs)"

definition split_str :: "string \<Rightarrow> string \<Rightarrow> string list" where
  "split_str s sep = (if sep = [] then map (\<lambda>c. [c]) s else split_from sep [] s)"

text \<open>\<open>parts.join(glue)\<close>.\<close>

fun join_str :: "string list \<Rightarrow> string \<Rightarrow> string" where
  "join_str [] glue = []"
| "join_str [p] glue = p"
| "join_str (p # q # ps) glue = p @ glue @ join_str (q # ps) glue"

section \<open>Template engine (\<open>OpenRouterService.processTemplate\<close>)\<close>

text \<open>The template literal \<open>{{${key}}}\<close>.\<close>

definition marker :: "string \<Rightarrow> string" where
  "marker key = ''{{'' @ key @ ''}}''"

text \<open>
  The loop over \<open>Object.entries(variables)\<close>: the second argument is the list of
  entries in the order \<open>Object.entries\<close> yields them.
\<close>

fun processTemplate :: "string \<Rightarrow> (string \<times> string) list \<Rightarrow> string" where
  "processTemplate result [] = result"
| "processTemplate result ((key, v) # entries) =
     processTemplate (join_str (split_str result (marker key)) v) entries"

subsection \<open>Well-formed templates, for comparison\<close>

text \<open>
  A template written as a sequence of plain text and markers, and the substitution that
  replaces every marker whose name is a key at once.
\<close>

datatype tok = Text string | Marker string

definition brace_free :: "string \<Rightarrow> bool" where
  "brace_free s = (CHR ''{'' \<notin> set s \<and> CHR ''}'' \<notin> set s)"

fun tok_ok :: "tok \<Rightarrow> bool" where
  "tok_ok (Text t) = brace_free t"
| "tok_ok (Marker n) = brace_free n"

fun render_tok :: "tok \<Rightarrow> string" where
  "render_tok (Text t) = t"
| "render_tok (Marker n) = marker n"

definition render :: "tok list \<Rightarrow> string" where
  "render toks = concat (map render_tok toks)"

fun fill_tok :: "(string \<rightharpoonup> string) \<Rightarrow> tok \<Rightarrow> tok" where
  "fill_tok m (Text t) = Text t"
| "fill_tok m (Marker n) = (case m n of None \<Rightarrow> Marker n | Some v \<Rightarrow> Text v)"

definition vars_ok :: "(string \<times> string) list \<Rightarrow> bool" where
  "vars_ok entries = list_all (\<lambda>(k, v). brace_free k \<and> brace_free v) entries"

text \<open>Replacing every occurrence, from the left, in one pass.\<close>

fun replace_all :: "string \<Rightarrow> string \<Rightarrow> string \<Rightarrow> string" where
  "replace_all sep v [] = []"
| "replace_all sep v (c # cs) =
     (if prefix sep (c # cs)
      then v @ replace_all sep v (drop (length sep - 1) cs)
      else c # replace_all sep v cs)"

text \<open>One step of the loop seen on the tokens: the markers of one key become text.\<close>

fun step_tok :: "string \<Rightarrow> string \<Rightarrow> tok \<Rightarrow> tok" where
  "step_tok k v (Text t) = Text t"
| "step_tok k v (Marker n) = (if n = k then Text v else Marker n)"

section \<open>Service adapter (\<open>services/llm/openrouter.ts\<close>)\<close>

subsection \<open>Configuration, environment and errors\<close>

datatype LLMProvider = GEMINI_3_PRO_IMAGE_PREVIEW | GEMINI_3_PRO_PREVIEW

fun PROVIDER_MODEL_MAP :: "LLMProvider \<Rightarrow> string" where
  "PROVIDER_MODEL_MAP GEMINI_3_PRO_IMAGE_PREVIEW = ''google/gemini-3-pro-image-preview''"
| "PROVIDER_MODEL_MAP GEMINI_3_PRO_PREVIEW = ''google/gemini-3-pro-preview''"

text \<open>\<open>LLMServiceConfig\<close>: every field is optional (\<open>None\<close> is \<open>undefined\<close>).\<close>

record LLMServiceConfig =
  apiKey :: "string option"
  baseUrl :: "string option"
  model :: "string option"
  expandPromptSystem :: "string option"
  expandPromptUserTemplate :: "string option"
  generationPromptTemplate :: "string option"

record ImageGenerationOptions =
  opt_quality :: "string option"

text \<open>
  What the adapter reads from its surroundings: \<open>import.meta.env.VITE_OPENROUTER_API_KEY\<close>,
  \<open>process.env.OPENROUTER_API_KEY\<close> (\<open>None\<close> when \<open>process\<close> is not defined) and
  \<open>window.location.href\<close>.
\<close>

record Env =
  VITE_OPENROUTER_API_KEY :: "string option"
  process_OPENROUTER_API_KEY :: "string option option"
  location_href :: string

text \<open>The code throws \<open>new Error(message)\<close> everywhere; an error is its message.\<close>

datatype error = Error string

definition API_KEY_NOT_FOUND :: string where
  "API_KEY_NOT_FOUND = ''OpenRouter API key not found. Please set VITE_OPENROUTER_API_KEY.''"

text \<open>\<open>x || d\<close> where \<open>d\<close> is a string.\<close>

definition or_default :: "string option \<Rightarrow> string \<Rightarrow> string" where
  "or_default x d = (case x of None \<Rightarrow> d | Some s \<Rightarrow> if s = [] then d else s)"

text \<open>
  The expression both \<open>isAvailable\<close> and \<open>getApiKey\<close> evaluate: the configured key,
  else the build-time variable, else the process variable.
\<close>

definition resolveApiKey :: "LLMServiceConfig \<Rightarrow> Env \<Rightarrow> string option" where
  "resolveApiKey cfg env =
     js_or (js_or (apiKey cfg) (VITE_OPENROUTER_API_KEY env))
       (case process_OPENROUTER_API_KEY env of None \<Rightarrow> None | Some k \<Rightarrow> k)"

definition isAvailable :: "LLMServiceConfig \<Rightarrow> Env \<Rightarrow> bool" where
  "isAvailable cfg env = truthy (resolveApiKey cfg env)"

definition getApiKey :: "LLMServiceConfig \<Rightarrow> Env \<Rightarrow> error + string" where
  "getApiKey cfg env =
     (case resolveApiKey cfg env of
        None \<Rightarrow> Inl (Error API_KEY_NOT_FOUND)
      | Some k \<Rightarrow> if k = [] then Inl (Error API_KEY_NOT_FOUND) else Inr k)"

subsection \<open>The network\<close>

text \<open>
  The body of a chat-completion request. The content of a message is a string or a list
  of parts; \<open>temperature\<close> is kept as the decimal literal of the source.
\<close>

datatype part = TextPart string | ImageUrlPart string

datatype msg_content = Plain string | Parts "part list"

record Request =
  req_url :: string
  authorization :: string
  http_referer :: string
  x_title :: string
  req_model :: string
  messages :: "(string \<times> msg_content) list"
  temperature :: "string option"
  modalities :: "string list option"

text \<open>
  What the code reads of a response: \<open>ok\<close>, \<open>statusText\<close> and the parsed body
  (\<open>Inl\<close> the message of the error when \<open>response.json()\<close> rejects). Of the body it reads
  \<open>error?.message\<close> and \<open>choices\<close>; of a choice \<open>message?.content\<close> and
  \<open>message?.images\<close>; of an image \<open>image_url?.url\<close>. A missing field is \<open>None\<close>.
\<close>

datatype ImageAttachment = ImageAttachment (image_url_url: "string option")

record Message =
  content :: "string option"
  images :: "ImageAttachment list option"

record Choice =
  choice_message :: "Message option"

record Body =
  error_message :: "string option"
  choices :: "Choice list option"

record Response =
  ok :: bool
  statusText :: string
  json :: "string + Body"

text \<open>The promise of \<open>fetch\<close> rejects with an error message or resolves to a response.\<close>

datatype FetchResult = Rejected string | Resolved Response

text \<open>
  The remote side answers a request knowing the requests sent before. \<open>fetch\<close> sends
  one request: the trace of requests grows by that request.
\<close>

type_synonym Network = "Request list \<Rightarrow> Request \<Rightarrow> FetchResult"

definition fetch :: "Network \<Rightarrow> Request \<Rightarrow> Request list \<Rightarrow> FetchResult \<times> Request list" where
  "fetch net req trace = (net trace req, trace @ [req])"

definition OPENROUTER_URL :: string where
  "OPENROUTER_URL = ''https://openrouter.ai/api/v1/chat/completions''"

text \<open>The request every operation builds: the headers are the same in all four.\<close>

definition mk_request ::
  "Env \<Rightarrow> string \<Rightarrow> string \<Rightarrow> (string \<times> msg_content) list \<Rightarrow> string option
     \<Rightarrow> string list option \<Rightarrow> Request" where
  "mk_request env key modelId msgs temp mods =
     \<lparr>req_url = OPENROUTER_URL,
      authorization = ''Bearer '' @ key,
      http_referer = location_href env,
      x_title = ''AmzGen'',
      req_model = modelId,
      messages = msgs,
      temperature = temp,
      modalities = mods\<rparr>"

text \<open>
  \<open>if (!response.ok) { const errorData = await response.json(); throw ... }\<close> and
  \<open>const data = await response.json()\<close>: the body of an accepted response, or the
  message of the error thrown.
\<close>

definition read_response :: "FetchResult \<Rightarrow> string + Body" where
  "read_response r =
     (case r of
        Rejected m \<Rightarrow> Inl m
      | Resolved resp \<Rightarrow>
          (case json resp of
             Inl m \<Rightarrow> Inl m
           | Inr b \<Rightarrow>
               if ok resp then Inr b
               else Inl (''OpenRouter API error: '' @ or_default (error_message b) (statusText resp))))"

text \<open>\<open>choices[0]?.message?.content\<close> and \<open>choice.message?.content\<close>.\<close>

definition choice_content :: "Choice \<Rightarrow> string option" where
  "choice_content c = (case choice_message c of None \<Rightarrow> None | Some m \<Rightarrow> content m)"

definition first_content :: "Choice list \<Rightarrow> string option" where
  "first_content cs = (case cs of [] \<Rightarrow> None | c # _ \<Rightarrow> choice_content c)"

text \<open>The message of the \<open>TypeError\<close> of \<open>data.choices[0]\<close> when \<open>choices\<close> is missing.\<close>

definition CHOICES_UNDEFINED :: string where
  "CHOICES_UNDEFINED = ''Cannot read properties of undefined (reading '' @ [CHR 0x27, CHR ''0'', CHR 0x27] @ '')''"

text \<open>\<open>imageBase64.replace(/^data:image\/(png|jpeg|jpg|webp);base64,/, '')\<close>.\<close>

definition strip_data_url :: "string \<Rightarrow> string" where
  "strip_data_url s =
     (if prefix ''data:image/png;base64,'' s then drop 22 s
      else if prefix ''data:image/jpeg;base64,'' s then drop 23 s
      else if prefix ''data:image/jpg;base64,'' s then drop 22 s
      else if prefix ''data:image/webp;base64,'' s then drop 23 s
      else s)"

subsection \<open>The default prompt templates\<close>

definition DEFAULT_SYSTEM_INSTRUCTION :: string where
  "DEFAULT_SYSTEM_INSTRUCTION =
    ''# Role: E-Commerce Product Photography Expert\<newline>\<newline>## Profile\<newline>- Description: Specialist in creating high-converting product images for online marketplaces (e.g., Amazon, Shopify).\<newline>\<newline>## Mandate\<newline>1. **Platform Compliance**: Images must be high-resolution and professional, suitable for various e-commerce formats (Main Image, Lifestyle, Infographic background).\<newline>2. **Product Hero**: The product MUST be the central focus, clearly visible and occupying the majority of the frame.\<newline>3. **Context Integration**: If additional context is provided, integrate it as a supporting element that enhances the product's appeal without distraction.\<newline>\<newline>## Rules\<newline>1.  **Output ONLY the final prompt text.**\<newline>2.  **Do NOT describe the product visual details** (color, shape) as it comes from the input image.\<newline>3.  **Keywords**: Commercial, High Resolution, Sharp Focus, Depth of Field, Studio Lighting, E-commerce Quality.\<newline>4.  **Composition**: Ensure natural interaction if people are involved, but keep the product as the undisputed subject.''"

definition DEFAULT_USER_TEMPLATE :: string where
  "DEFAULT_USER_TEMPLATE =
    ''# Task: Write a Commercial Image Gen Prompt\<newline>\<newline>## Input Data\<newline>- **Target Scene**: \"{{basePrompt}}\"\<newline>- **Additional Context**: \"{{customContext}}\"\<newline>\<newline>## Instructions\<newline>Based on the input, write a detailed, commercial-grade prompt.\<newline>- Ensure the scene highlights the product's value proposition.\<newline>- Emphasize lighting and texture for a premium, trustworthy look.\<newline>- Adapt the style to fit general e-commerce standards (clean, professional).''"

definition DEFAULT_GENERATION_TEMPLATE :: string where
  "DEFAULT_GENERATION_TEMPLATE =
    ''Create a high-end commercial product image for e-commerce.\<newline>Reference Image: Use the provided product image as the main subject.\<newline>Scene Description: {{prompt}}.\<newline>Requirements:\<newline>- **Focus**: Sharp on the product.\<newline>- **Composition**: Product is the hero, centered and commanding attention.\<newline>- **Lighting**: Professional studio or natural commercial lighting.\<newline>Style: E-commerce Lifestyle, High Resolution, Photorealistic, Advertisement.''"

subsection \<open>\<open>expandPrompt\<close>\<close>

text \<open>
  The body of the \<open>try\<close> after the request: the text of the first choice, or the
  synthesized sentence when there is none; \<open>Inl\<close> the message of the error thrown.
\<close>

definition expand_result :: "string \<Rightarrow> FetchResult \<Rightarrow> string + string" where
  "expand_result basePrompt res =
     (case read_response res of
        Inl m \<Rightarrow> Inl m
      | Inr d \<Rightarrow>
          (case choices d of
             None \<Rightarrow> Inl CHOICES_UNDEFINED
           | Some cs \<Rightarrow>
               Inr (or_default (first_content cs)
                      (''A professional product shot in a '' @ basePrompt @ '' setting.''))))"

definition expand_request :: "LLMServiceConfig \<Rightarrow> Env \<Rightarrow> LLMProvider \<Rightarrow> string \<Rightarrow> string \<Rightarrow> string \<Rightarrow> Request" where
  "expand_request cfg env p key basePrompt customContext =
     (let modelId = PROVIDER_MODEL_MAP p;
          systemInstruction = or_default (expandPromptSystem cfg) DEFAULT_SYSTEM_INSTRUCTION;
          userTemplate = or_default (expandPromptUserTemplate cfg) DEFAULT_USER_TEMPLATE;
          userPrompt = processTemplate userTemplate
             [(''basePrompt'', basePrompt), (''customContext'', customContext)]
      in mk_request env key modelId
           [(''system'', Plain systemInstruction), (''user'', Plain userPrompt)]
           (Some ''0.7'') None)"

definition expandPrompt ::
  "Network \<Rightarrow> LLMServiceConfig \<Rightarrow> Env \<Rightarrow> LLMProvider \<Rightarrow> string \<Rightarrow> string \<Rightarrow> Request list
     \<Rightarrow> (error + string) \<times> Request list" where
  "expandPrompt net cfg env p basePrompt customContext trace =
     (case getApiKey cfg env of
        Inl e \<Rightarrow> (Inl e, trace)
      | Inr key \<Rightarrow>
          (let (res, trace') =
                 fetch net (expand_request cfg env p key basePrompt customContext) trace
           in (case expand_result basePrompt res of
                 Inl m \<Rightarrow> (Inl (Error (''Failed to expand prompt: '' @ m)), trace')
               | Inr t \<Rightarrow> (Inr t, trace'))))"

subsection \<open>Finding the image in a response\<close>

text \<open>
  \<open>/\!\[.*?\]\((.*?)\)/\<close>, matched as a backtracking matcher does. \<open>md_capture\<close> is
  \<open>(.*?)\)\<close>, \<open>md_alt\<close> is \<open>.*?\]\((.*?)\)\<close>, and \<open>md_match\<close> tries every start from
  the left; the result is the first group of the first match.
\<close>

fun md_capture :: "string \<Rightarrow> string \<Rightarrow> string option" where
  "md_capture acc [] = None"
| "md_capture acc (c # cs) =
     (if c = CHR '')'' then Some (rev acc)
      else if isLineTerminator c then None
      else md_capture (c # acc) cs)"

fun md_alt :: "string \<Rightarrow> string option" where
  "md_alt [] = None"
| "md_alt (c # cs) =
     (case (if prefix ''](''  (c # cs) then md_capture [] (drop 1 cs) else None) of
        Some g \<Rightarrow> Some g
      | None \<Rightarrow> if isLineTerminator c then None else md_alt cs)"

fun md_match :: "string \<Rightarrow> string option" where
  "md_match [] = None"
| "md_match (c # cs) =
     (case (if prefix ''!['' (c # cs) then md_alt (drop 1 cs) else None) of
        Some g \<Rightarrow> Some g
      | None \<Rightarrow> md_match cs)"

text \<open>
  \<open>/(https?:\/\/[^\s)]+)/i\<close>: the scheme in either case, then the longest run, at least
  one character, of characters that are neither white space nor \<open>)\<close>.
\<close>

fun ci_char :: "char \<Rightarrow> char \<Rightarrow> bool" where
  "ci_char p c =
     (c = p \<or> (p = CHR ''h'' \<and> c = CHR ''H'') \<or> (p = CHR ''t'' \<and> c = CHR ''T'')
      \<or> (p = CHR ''p'' \<and> c = CHR ''P'') \<or> (p = CHR ''s'' \<and> c = CHR ''S''))"

fun ci_prefix :: "string \<Rightarrow> string \<Rightarrow> bool" where
  "ci_prefix [] s = True"
| "ci_prefix (p # ps) [] = False"
| "ci_prefix (p # ps) (c # cs) = (ci_char p c \<and> ci_prefix ps cs)"

definition url_at :: "string \<Rightarrow> string option" where
  "url_at s =
     (let n = (if ci_prefix ''https://'' s then Some 8
               else if ci_prefix ''http://'' s then Some 7 else None)
      in case n of
           None \<Rightarrow> None
         | Some k \<Rightarrow>
             (let run = takeWhile (\<lambda>c. \<not> isSpace c \<and> c \<noteq> CHR '')'') (drop k s)
              in if run = [] then None else Some (take k s @ run)))"

fun url_match :: "string \<Rightarrow> string option" where
  "url_match [] = None"
| "url_match (c # cs) =
     (case url_at (c # cs) of Some u \<Rightarrow> Some u | None \<Rightarrow> url_match cs)"

text \<open>
  The body of the loop over the choices, shared word for word by \<open>generateImage\<close> and
  \<open>editImage\<close>: the result is the value given to \<open>finalContent\<close> before \<open>break\<close>, or
  \<open>None\<close> when the loop goes on to the next choice.
\<close>

definition attachment_url :: "Choice \<Rightarrow> string option" where
  "attachment_url c =
     (case choice_message c of
        None \<Rightarrow> None
      | Some m \<Rightarrow>
          (case images m of
             None \<Rightarrow> None
           | Some [] \<Rightarrow> None
           | Some (firstImg # _) \<Rightarrow>
               if truthy (image_url_url firstImg) then image_url_url firstImg else None))"

definition content_image :: "string \<Rightarrow> string option" where
  "content_image c =
     (let urlMatch = (case md_match c of Some g \<Rightarrow> Some g | None \<Rightarrow> url_match c);
          dataUrl = (if prefix ''data:image'' c then Some c else None)
      in case urlMatch of
           None \<Rightarrow> dataUrl
         | Some g \<Rightarrow> if includes_str g ''http'' then Some g else dataUrl)"

definition scan_choice :: "Choice \<Rightarrow> string option" where
  "scan_choice c =
     (case attachment_url c of
        Some u \<Rightarrow> Some u
      | None \<Rightarrow>
          (if truthy (choice_content c) then content_image (the (choice_content c)) else None))"

fun scan_choices :: "Choice list \<Rightarrow> string option" where
  "scan_choices [] = None"
| "scan_choices (c # cs) =
     (case scan_choice c of Some u \<Rightarrow> Some u | None \<Rightarrow> scan_choices cs)"

definition find_image :: "Body \<Rightarrow> string option" where
  "find_image d = (case choices d of None \<Rightarrow> None | Some cs \<Rightarrow> scan_choices cs)"

definition body_first_content :: "Body \<Rightarrow> string option" where
  "body_first_content d = (case choices d of None \<Rightarrow> None | Some cs \<Rightarrow> first_content cs)"

subsection \<open>\<open>generateImage\<close>\<close>

definition generate_result :: "FetchResult \<Rightarrow> string + string" where
  "generate_result res =
     (case read_response res of
        Inl m \<Rightarrow> Inl m
      | Inr d \<Rightarrow>
          (if truthy (find_image d) then Inr (the (find_image d))
           else if truthy (body_first_content d)
             then Inl ''The selected model returned text instead of an image.''
           else Inl ''No valid image content returned from OpenRouter API (checked all choices).''))"

definition generate_request ::
  "LLMServiceConfig \<Rightarrow> Env \<Rightarrow> LLMProvider \<Rightarrow> string \<Rightarrow> string \<Rightarrow> string
     \<Rightarrow> ImageGenerationOptions option \<Rightarrow> Request" where
  "generate_request cfg env p key imageBase64 prompt options =
     (let modelId = PROVIDER_MODEL_MAP p;
          cleanBase64 = strip_data_url imageBase64;
          generationTemplate =
            or_default (generationPromptTemplate cfg) DEFAULT_GENERATION_TEMPLATE;
          filled = processTemplate generationTemplate [(''prompt'', prompt)];
          q = (case options of None \<Rightarrow> None | Some opts \<Rightarrow> opt_quality opts);
          fullPrompt =
            (if truthy q then filled @ [CHR 0x0A] @ ''Style/Quality: '' @ the q else filled);
          msgs = [(''user'', Parts [TextPart fullPrompt,
                     ImageUrlPart (''data:image/png;base64,'' @ cleanBase64)])];
          mods = (if p = GEMINI_3_PRO_IMAGE_PREVIEW then Some [''image'', ''text''] else None)
      in mk_request env key modelId msgs None mods)"

definition generateImage ::
  "Network \<Rightarrow> LLMServiceConfig \<Rightarrow> Env \<Rightarrow> LLMProvider \<Rightarrow> string \<Rightarrow> string
     \<Rightarrow> ImageGenerationOptions option \<Rightarrow> Request list \<Rightarrow> (error + string) \<times> Request list" where
  "generateImage net cfg env p imageBase64 prompt options trace =
     (case getApiKey cfg env of
        Inl e \<Rightarrow> (Inl e, trace)
      | Inr key \<Rightarrow>
          (let (res, trace') =
                 fetch net (generate_request cfg env p key imageBase64 prompt options) trace
           in (case generate_result res of
                 Inl m \<Rightarrow> (Inl (Error (''Failed to generate image: '' @ m)), trace')
               | Inr u \<Rightarrow> (Inr u, trace'))))"

subsection \<open>\<open>recommendScenarios\<close>\<close>

definition recommend_prompt :: string where
  "recommend_prompt =
    ''Analyze the product image. Suggest 3 distinct, commercial e-commerce photography scenarios suitable for online marketplaces like Amazon.\<newline>    Focus on environments, lighting, and props that increase conversion rates.\<newline>    Scenarios should be diverse (e.g., studio, lifestyle, creative) but strictly professional.\<newline>    Do NOT use restricted terms like 'Amazon Choice' or 'Best Seller'.\<newline>    Output format: JSON array of strings.\<newline>    ONLY output the JSON array.''"

definition FALLBACK_SCENARIOS :: "string list" where
  "FALLBACK_SCENARIOS =
     [''A clean studio setting with soft lighting.'',
      ''A lifestyle setting with natural sunlight.'',
      ''A professional commercial background.'']"

text \<open>
  \<open>content.replace(/```json\n?|\n?```/g, '')\<close>: at every position from the left the first
  alternative (the fence with \<open>json\<close> and a line feed if there is one) is tried before
  the second (a line feed if there is one, then the fence); what matches is dropped.
\<close>

definition fence :: string where
  "fence = [CHR 0x60, CHR 0x60, CHR 0x60]"

fun strip_fences :: "string \<Rightarrow> string" where
  "strip_fences [] = []"
| "strip_fences (c # cs) =
     (if prefix (fence @ ''json'') (c # cs)
      then (if prefix [CHR 0x0A] (drop 6 cs) then strip_fences (drop 7 cs)
            else strip_fences (drop 6 cs))
      else if prefix (CHR 0x0A # fence) (c # cs) then strip_fences (drop 3 cs)
      else if prefix fence (c # cs) then strip_fences (drop 2 cs)
      else c # strip_fences cs)"

definition trim :: "string \<Rightarrow> string" where
  "trim s = rev (dropWhile isSpace (rev (dropWhile isSpace s)))"

fun indexOf :: "string \<Rightarrow> char \<Rightarrow> nat option" where
  "indexOf [] c = None"
| "indexOf (x # xs) c = (if x = c then Some 0 else map_option Suc (indexOf xs c))"

definition lastIndexOf :: "string \<Rightarrow> char \<Rightarrow> nat option" where
  "lastIndexOf s c =
     (case indexOf (rev s) c of None \<Rightarrow> None | Some i \<Rightarrow> Some (length s - 1 - i))"

text \<open>\<open>s.substring(a, b)\<close>: both indices are clamped to the length and swapped if \<open>a > b\<close>.\<close>

definition substring :: "string \<Rightarrow> nat \<Rightarrow> nat \<Rightarrow> string" where
  "substring s a b =
     (let a' = min a (length s); b' = min b (length s);
          lo = min a' b'; hi = max a' b'
      in take (hi - lo) (drop lo s))"

text \<open>
  \<open>JSON.parse\<close> is the built-in of the language, taken as a parameter: \<open>Inl\<close> the message
  of the \<open>SyntaxError\<close> it throws, \<open>Inr\<close> the array it returns, which the code types as
  \<open>string[]\<close> and returns unchecked.
\<close>

type_synonym JSON_parse = "string \<Rightarrow> string + string list"

text \<open>
  The body of the \<open>try\<close> after the request: \<open>Inl\<close> the message of the error thrown,
  \<open>Inr\<close> the value returned. \<open>jsonString_of\<close> is the text of the first choice
  (\<open>[]\<close> when it has none), its code fences dropped, trimmed.
\<close>

definition jsonString_of :: "Choice list \<Rightarrow> string" where
  "jsonString_of cs = trim (strip_fences (or_default (first_content cs) ''[]''))"

definition recommend_result :: "JSON_parse \<Rightarrow> FetchResult \<Rightarrow> string + string list" where
  "recommend_result parse res =
     (case read_response res of
        Inl m \<Rightarrow> Inl m
      | Inr d \<Rightarrow>
          (case choices d of
             None \<Rightarrow> Inl CHOICES_UNDEFINED
           | Some cs \<Rightarrow>
               (let jsonString = jsonString_of cs;
                    start = indexOf jsonString (CHR ''['');
                    stop = lastIndexOf jsonString (CHR '']'')
                in case start of
                     None \<Rightarrow> Inr []
                   | Some a \<Rightarrow>
                       (case stop of
                          None \<Rightarrow> Inr []
                        | Some b \<Rightarrow> parse (substring jsonString a (b + 1))))))"

definition recommend_request :: "Env \<Rightarrow> string \<Rightarrow> string \<Rightarrow> Request" where
  "recommend_request env key imageBase64 =
     (let modelId = ''google/gemini-3-pro-preview'';
          cleanBase64 = strip_data_url imageBase64;
          msgs = [(''user'', Parts [TextPart recommend_prompt,
                     ImageUrlPart (''data:image/png;base64,'' @ cleanBase64)])]
      in mk_request env key modelId msgs None None)"

definition recommendScenarios ::
  "Network \<Rightarrow> JSON_parse \<Rightarrow> LLMServiceConfig \<Rightarrow> Env \<Rightarrow> string \<Rightarrow> Request list
     \<Rightarrow> (error + string list) \<times> Request list" where
  "recommendScenarios net parse cfg env imageBase64 trace =
     (case getApiKey cfg env of
        Inl e \<Rightarrow> (Inl e, trace)
      | Inr key \<Rightarrow>
          (let (res, trace') = fetch net (recommend_request env key imageBase64) trace
           in (case recommend_result parse res of
                 Inl m \<Rightarrow> (Inr FALLBACK_SCENARIOS, trace')
               | Inr xs \<Rightarrow> (Inr xs, trace'))))"

subsection \<open>\<open>editImage\<close>\<close>

definition edit_instruction_head :: string where
  "edit_instruction_head =
    ''Perform an inpainting/edit task on the image using the provided mask.\<newline>              The white area in the mask indicates the region to modify.\<newline>              Instruction: ''"

definition edit_instruction_tail :: string where
  "edit_instruction_tail =
    ''\<newline>              Return ONLY the resulting image.''"

definition edit_result :: "FetchResult \<Rightarrow> string + string" where
  "edit_result res =
     (case read_response res of
        Inl m \<Rightarrow> Inl m
      | Inr d \<Rightarrow>
          (if truthy (find_image d) then Inr (the (find_image d))
           else Inl (''No image returned for edit request. The model might have output text instead: ''
                  @ or_default (map_option (take 100) (body_first_content d)) ''Empty response'')))"

definition edit_request :: "Env \<Rightarrow> string \<Rightarrow> string \<Rightarrow> string \<Rightarrow> string \<Rightarrow> Request" where
  "edit_request env key imageBase64 maskBase64 prompt =
     (let modelId = ''google/gemini-3-pro-image-preview'';
          cleanImageBase64 = strip_data_url imageBase64;
          cleanMaskBase64 = strip_data_url maskBase64;
          msgs = [(''user'', Parts
                    [TextPart (edit_instruction_head @ prompt @ edit_instruction_tail),
                     ImageUrlPart (''data:image/png;base64,'' @ cleanImageBase64),
                     ImageUrlPart (''data:image/png;base64,'' @ cleanMaskBase64)])];
          mods = (if includes_str modelId ''gemini-3-pro-image-preview''
                  then Some [''image'', ''text''] else None)
      in mk_request env key modelId msgs None mods)"

definition editImage ::
  "Network \<Rightarrow> LLMServiceConfig \<Rightarrow> Env \<Rightarrow> string \<Rightarrow> string \<Rightarrow> string \<Rightarrow> Request list
     \<Rightarrow> (error + string) \<times> Request list" where
  "editImage net cfg env imageBase64 maskBase64 prompt trace =
     (case getApiKey cfg env of
        Inl e \<Rightarrow> (Inl e, trace)
      | Inr key \<Rightarrow>
          (let (res, trace') = fetch net (edit_request env key imageBase64 maskBase64 prompt) trace
           in (case edit_result res of
                 Inl m \<Rightarrow> (Inl (Error (''Failed to edit image: '' @ m)), trace')
               | Inr u \<Rightarrow> (Inr u, trace'))))"

section \<open>Service factory (\<open>services/llm/factory.ts\<close>)\<close>

text \<open>An adapter object: the two private fields of \<open>OpenRouterService\<close>.\<close>

record OpenRouterService =
  config :: LLMServiceConfig
  provider :: LLMProvider

text \<open>
  The static fields of \<open>LLMServiceFactory\<close>, with the store of the adapter objects
  constructed so far. A reference to an object is its index in the store, so two
  references are the same object exactly when they are equal; \<open>instances\<close> maps a
  provider to the reference of its cached adapter.
\<close>

record FactoryState =
  instances :: "LLMProvider \<rightharpoonup> nat"
  factory_config :: LLMServiceConfig
  objects :: "OpenRouterService list"

definition empty_config :: LLMServiceConfig where
  "empty_config =
     \<lparr>apiKey = None, baseUrl = None, model = None, expandPromptSystem = None,
      expandPromptUserTemplate = None, generationPromptTemplate = None\<rparr>"

definition initial_factory :: FactoryState where
  "initial_factory = \<lparr>instances = Map.empty, factory_config = empty_config, objects = []\<rparr>"

definition registerConfig :: "LLMServiceConfig \<Rightarrow> FactoryState \<Rightarrow> FactoryState" where
  "registerConfig cfg F = F\<lparr>factory_config := cfg, instances := Map.empty\<rparr>"

definition getService :: "LLMProvider \<Rightarrow> FactoryState \<Rightarrow> nat \<times> FactoryState" where
  "getService p F =
     (case instances F p of
        Some r \<Rightarrow> (r, F)
      | None \<Rightarrow>
          (let service = \<lparr>config = factory_config F, provider = p\<rparr>;
               r = length (objects F)
           in (r, F\<lparr>objects := objects F @ [service], instances := (instances F)(p \<mapsto> r)\<rparr>)))"

text \<open>Any number of \<open>getService\<close> calls in a row, for the providers of a list.\<close>

fun getServices :: "LLMProvider list \<Rightarrow> FactoryState \<Rightarrow> FactoryState" where
  "getServices [] F = F"
| "getServices (p # ps) F = getServices ps (snd (getService p F))"

text \<open>
  Every cached adapter is in the store, was constructed for the provider it is cached
  under, and holds the registered configuration.
\<close>

definition all_providers :: "LLMProvider list" where
  "all_providers = [GEMINI_3_PRO_IMAGE_PREVIEW, GEMINI_3_PRO_PREVIEW]"

definition cached_ok :: "FactoryState \<Rightarrow> LLMProvider \<Rightarrow> bool" where
  "cached_ok F p =
     (case instances F p of
        None \<Rightarrow> True
      | Some r \<Rightarrow>
          r < length (objects F)
          \<and> objects F ! r = \<lparr>config = factory_config F, provider = p\<rparr>)"

definition factory_inv :: "FactoryState \<Rightarrow> bool" where
  "factory_inv F = list_all (cached_ok F) all_providers"

text \<open>
  The exported functions of \<open>factory.ts\<close>: look the adapter up, call its method. The
  state they work on is the factory and the trace of requests.
\<close>

definition factory_expandPrompt ::
  "Network \<Rightarrow> Env \<Rightarrow> string \<Rightarrow> LLMProvider \<Rightarrow> string \<Rightarrow> FactoryState \<times> Request list
     \<Rightarrow> (error + string) \<times> (FactoryState \<times> Request list)" where
  "factory_expandPrompt net env basePrompt p customContext st =
     (let (r, F') = getService p (fst st);
          service = objects F' ! r;
          (res, trace') = expandPrompt net (config service) env (provider service)
                            basePrompt customContext (snd st)
      in (res, (F', trace')))"

definition generateProductScene ::
  "Network \<Rightarrow> Env \<Rightarrow> string \<Rightarrow> string \<Rightarrow> LLMProvider \<Rightarrow> ImageGenerationOptions option
     \<Rightarrow> FactoryState \<times> Request list \<Rightarrow> (error + string) \<times> (FactoryState \<times> Request list)" where
  "generateProductScene net env imageBase64 prompt p options st =
     (let (r, F') = getService p (fst st);
          service = objects F' ! r;
          (res, trace') = generateImage net (config service) env (provider service)
                            imageBase64 prompt options (snd st)
      in (res, (F', trace')))"

definition factory_recommendScenarios ::
  "Network \<Rightarrow> JSON_parse \<Rightarrow> Env \<Rightarrow> string \<Rightarrow> LLMProvider \<Rightarrow> FactoryState \<times> Request list
     \<Rightarrow> (error + string list) \<times> (FactoryState \<times> Request list)" where
  "factory_recommendScenarios net parse env imageBase64 p st =
     (let (r, F') = getService p (fst st);
          service = objects F' ! r;
          (res, trace') = recommendScenarios net parse (config service) env imageBase64 (snd st)
      in (res, (F', trace')))"

section \<open>Orchestration loop (\<open>handleGenerate\<close> of the \<open>App\<close> component)\<close>

subsection \<open>Data\<close>

datatype File = File string

record ScenarioPreset =
  preset_id :: string
  name :: string
  description :: string
  quality :: string
  icon :: "string option"
  isRecommended :: "bool option"

record GeneratedImage =
  image_id :: string
  url :: string
  prompt :: string
  vibe :: string
  timestamp :: nat

datatype Step =
  IDLE | EXPANDING_PROMPT | GENERATING_IMAGE | COMPLETED | ERROR | ANALYZING_IMAGE

record ProcessingState =
  step :: Step
  message :: string

text \<open>
  The values of the component's state that \<open>handleGenerate\<close> reads; it reads them as
  they were at the render that made the handler, and writes none of them.
\<close>

record Inputs =
  selectedFile :: "File option"
  previewUrl :: "string option"
  removeBg :: bool
  presets :: "ScenarioPreset list"
  aiRecommendations :: "ScenarioPreset list"
  selectedPresetIds :: "string list"
  customContext :: string

definition displayPresets :: "Inputs \<Rightarrow> ScenarioPreset list" where
  "displayPresets I = presets I @ aiRecommendations I"

text \<open>
  What \<open>handleGenerate\<close> calls outside the component, as functions on a state \<open>'w\<close> of
  the outside world: \<open>removeWhiteBackground\<close> of \<open>utils\<close>, the two exported functions
  of \<open>factory.ts\<close>, \<open>Date.now()\<close> and \<open>Math.random().toString()\<close>.
\<close>

record 'w World =
  removeWhiteBackground :: "File \<Rightarrow> 'w \<Rightarrow> (error + string) \<times> 'w"
  expandPrompt_op :: "string \<Rightarrow> LLMProvider \<Rightarrow> string \<Rightarrow> 'w \<Rightarrow> (error + string) \<times> 'w"
  generateProductScene_op ::
    "string \<Rightarrow> string \<Rightarrow> LLMProvider \<Rightarrow> ImageGenerationOptions option \<Rightarrow> 'w
       \<Rightarrow> (error + string) \<times> 'w"
  Date_now :: "'w \<Rightarrow> nat \<times> 'w"
  Math_random :: "'w \<Rightarrow> string \<times> 'w"

text \<open>
  The state the handler writes: the two state variables of the component, the number of
  reset timers set by \<open>setTimeout\<close> and not yet fired, and the outside world.
\<close>

record 'w AppState =
  processingState :: ProcessingState
  generatedImages :: "GeneratedImage list"
  pendingTimers :: nat
  world :: 'w

subsection \<open>Messages\<close>

text \<open>The decimal digits of a number, as a template literal prints it.\<close>

definition digit_char :: "nat \<Rightarrow> char" where
  "digit_char d = ''0123456789'' ! d"

fun show_nat :: "nat \<Rightarrow> string" where
  "show_nat n = (if n < 10 then [digit_char n] else show_nat (n div 10) @ [digit_char (n mod 10)])"

declare show_nat.simps [simp del]

definition progress :: "nat \<Rightarrow> nat \<Rightarrow> string" where
  "progress completed total_n = ''['' @ show_nat completed @ ''/'' @ show_nat total_n @ ''] ''"

definition designing_message :: "nat \<Rightarrow> nat \<Rightarrow> string \<Rightarrow> string" where
  "designing_message completed total_n currentPresetName =
     progress completed total_n @ ''Designing \"'' @ currentPresetName @ ''\" scene...''"

definition rendering_message :: "nat \<Rightarrow> nat \<Rightarrow> string \<Rightarrow> string" where
  "rendering_message completed total_n currentPresetName =
     progress completed total_n @ ''Rendering \"'' @ currentPresetName @ ''\"...''"

definition REMOVING_BACKGROUND :: ProcessingState where
  "REMOVING_BACKGROUND =
     \<lparr>step = EXPANDING_PROMPT, message = ''Removing background for better integration...''\<rparr>"

definition ALL_GENERATED :: ProcessingState where
  "ALL_GENERATED = \<lparr>step = COMPLETED, message = ''All scenarios generated successfully!''\<rparr>"

definition SOMETHING_WENT_WRONG :: ProcessingState where
  "SOMETHING_WENT_WRONG =
     \<lparr>step = ERROR, message = ''Something went wrong. Please check your API key and try again.''\<rparr>"

subsection \<open>\<open>handleGenerate\<close>, run from the click to its end\<close>

text \<open>
  Step 4 of the loop body: the new record, with its three readings of the clock and of
  the random source in the order the object literal makes them.
\<close>

definition new_image ::
  "'w World \<Rightarrow> string \<Rightarrow> string \<Rightarrow> string \<Rightarrow> 'w \<Rightarrow> GeneratedImage \<times> 'w" where
  "new_image W currentPresetName expandedPrompt generatedImageUrl w =
     (let (t1, w1) = Date_now W w;
          (rnd, w2) = Math_random W w1;
          (t2, w3) = Date_now W w2
      in (\<lparr>image_id = show_nat t1 @ take 6 (drop 2 rnd),
           url = generatedImageUrl,
           prompt = expandedPrompt,
           vibe = currentPresetName,
           timestamp = t2\<rparr>, w3))"

text \<open>
  The body of the loop for a preset that was found, \<open>completed\<close> already counted up.
  The result is the error thrown, if any, with the state at that moment.
\<close>

definition process_preset ::
  "'w World \<Rightarrow> Inputs \<Rightarrow> string \<Rightarrow> nat \<Rightarrow> nat \<Rightarrow> ScenarioPreset \<Rightarrow> 'w AppState
     \<Rightarrow> error option \<times> 'w AppState" where
  "process_preset W I imageToProcess total_n completed selectedPreset s =
     (let currentPresetName = name selectedPreset;
          s1 = s\<lparr>processingState :=
                 \<lparr>step = EXPANDING_PROMPT,
                  message = designing_message completed total_n currentPresetName\<rparr>\<rparr>;
          basePrompt = description selectedPreset;
          (r1, w1) = expandPrompt_op W basePrompt GEMINI_3_PRO_PREVIEW (customContext I) (world s1);
          s2 = s1\<lparr>world := w1\<rparr>
      in case r1 of
           Inl e \<Rightarrow> (Some e, s2)
         | Inr expandedPrompt \<Rightarrow>
             (let s3 = s2\<lparr>processingState :=
                         \<lparr>step = GENERATING_IMAGE,
                          message = rendering_message completed total_n currentPresetName\<rparr>\<rparr>;
                  opts = Some \<lparr>opt_quality = Some (quality selectedPreset)\<rparr>;
                  (r2, w2) = generateProductScene_op W imageToProcess expandedPrompt
                               GEMINI_3_PRO_IMAGE_PREVIEW opts (world s3);
                  s4 = s3\<lparr>world := w2\<rparr>
              in case r2 of
                   Inl e \<Rightarrow> (Some e, s4)
                 | Inr generatedImageUrl \<Rightarrow>
                     (let (newImage, w3) = new_image W currentPresetName expandedPrompt
                                             generatedImageUrl (world s4)
                      in (None, s4\<lparr>world := w3,
                                    generatedImages := newImage # generatedImages s4\<rparr>))))"

text \<open>
  The \<open>for\<close> loop over \<open>selectedPresetIds\<close>: an id that no displayed preset has is
  skipped; an error thrown ends the loop.
\<close>

fun run_presets ::
  "'w World \<Rightarrow> Inputs \<Rightarrow> string \<Rightarrow> nat \<Rightarrow> string list \<Rightarrow> nat \<Rightarrow> 'w AppState
     \<Rightarrow> error option \<times> 'w AppState" where
  "run_presets W I imageToProcess total_n [] completed s = (None, s)"
| "run_presets W I imageToProcess total_n (presetId # rest) completed s =
     (case find (\<lambda>p. preset_id p = presetId) (displayPresets I) of
        None \<Rightarrow> run_presets W I imageToProcess total_n rest completed s
      | Some selectedPreset \<Rightarrow>
          (case process_preset W I imageToProcess total_n (completed + 1) selectedPreset s of
             (Some e, s') \<Rightarrow> (Some e, s')
           | (None, s') \<Rightarrow> run_presets W I imageToProcess total_n rest (completed + 1) s'))"

text \<open>Step 1: the image the batch works on.\<close>

definition prepare_image ::
  "'w World \<Rightarrow> Inputs \<Rightarrow> File \<Rightarrow> string \<Rightarrow> 'w AppState \<Rightarrow> (error + string) \<times> 'w AppState" where
  "prepare_image W I file pv s =
     (if removeBg I
      then (let s1 = s\<lparr>processingState := REMOVING_BACKGROUND\<rparr>;
                (r, w) = removeWhiteBackground W file (world s1)
            in (r, s1\<lparr>world := w\<rparr>))
      else (Inr pv, s))"

text \<open>The \<open>try\<close> block up to the end of the loop.\<close>

definition try_batch ::
  "'w World \<Rightarrow> Inputs \<Rightarrow> File \<Rightarrow> string \<Rightarrow> 'w AppState \<Rightarrow> error option \<times> 'w AppState" where
  "try_batch W I file pv s =
     (case prepare_image W I file pv s of
        (Inl e, s1) \<Rightarrow> (Some e, s1)
      | (Inr imageToProcess, s1) \<Rightarrow>
          run_presets W I imageToProcess (length (selectedPresetIds I)) (selectedPresetIds I) 0 s1)"

text \<open>The guard of the first line: when it holds the handler returns at once.\<close>

definition nothing_to_generate :: "Inputs \<Rightarrow> bool" where
  "nothing_to_generate I =
     (selectedFile I = None \<or> \<not> truthy (previewUrl I) \<or> selectedPresetIds I = [])"

definition handleGenerate :: "'w World \<Rightarrow> Inputs \<Rightarrow> 'w AppState \<Rightarrow> 'w AppState" where
  "handleGenerate W I s =
     (if nothing_to_generate I then s
      else (case try_batch W I (the (selectedFile I)) (the (previewUrl I)) s of
              (Some e, s') \<Rightarrow> s'\<lparr>processingState := SOMETHING_WENT_WRONG\<rparr>
            | (None, s') \<Rightarrow>
                s'\<lparr>processingState := ALL_GENERATED, pendingTimers := pendingTimers s' + 1\<rparr>))"

text \<open>The callback of \<open>setTimeout\<close>, run when a reset timer fires.\<close>

definition reset_timer_fired :: "'w AppState \<Rightarrow> 'w AppState" where
  "reset_timer_fired s =
     s\<lparr>processingState := \<lparr>step = IDLE, message = []\<rparr>, pendingTimers := pendingTimers s - 1\<rparr>"

subsection \<open>The Generate button\<close>

text \<open>The \<open>disabled\<close> attribute of the button; a disabled button runs no handler.\<close>

definition generate_disabled :: "Inputs \<Rightarrow> ProcessingState \<Rightarrow> bool" where
  "generate_disabled I ps =
     (\<not> truthy (previewUrl I) \<or> selectedPresetIds I = []
      \<or> (step ps \<noteq> IDLE \<and> step ps \<noteq> COMPLETED \<and> step ps \<noteq> ERROR))"

definition click_generate :: "'w World \<Rightarrow> Inputs \<Rightarrow> 'w AppState \<Rightarrow> 'w AppState" where
  "click_generate W I s =
     (if generate_disabled I (processingState s) then s else handleGenerate W I s)"

subsection \<open>The calls the outside world receives\<close>

text \<open>
  A call as the outside world receives it: the arguments it was given and what it gave
  back (\<open>Inl\<close> the error thrown); for the clock and the random source, the reading.
\<close>

datatype Call =
  RemoveBgCall File "error + string"
| ExpandCall string LLMProvider string "error + string"
| GenerateCall string string LLMProvider "ImageGenerationOptions option" "error + string"
| NowCall nat
| RandomCall string

text \<open>
  An outside world that answers as \<open>W\<close> does and keeps, beside the state of \<open>W\<close>, the
  list of the calls it has received, the latest last. The list is written by the
  outside world when a call arrives, from the arguments that arrive; the handler has no
  access to it.
\<close>

definition recording :: "'w World \<Rightarrow> ('w \<times> Call list) World" where
  "recording W =
     \<lparr>removeWhiteBackground =
        (\<lambda>f wl. let (r, w) = removeWhiteBackground W f (fst wl)
                in (r, (w, snd wl @ [RemoveBgCall f r]))),
      expandPrompt_op =
        (\<lambda>b p c wl. let (r, w) = expandPrompt_op W b p c (fst wl)
                    in (r, (w, snd wl @ [ExpandCall b p c r]))),
      generateProductScene_op =
        (\<lambda>i e p opts wl. let (r, w) = generateProductScene_op W i e p opts (fst wl)
                         in (r, (w, snd wl @ [GenerateCall i e p opts r]))),
      Date_now =
        (\<lambda>wl. let (t, w) = Date_now W (fst wl) in (t, (w, snd wl @ [NowCall t]))),
      Math_random =
        (\<lambda>wl. let (x, w) = Math_random W (fst wl) in (x, (w, snd wl @ [RandomCall x])))\<rparr>"

text \<open>The state of the component without the list of calls.\<close>

definition forget :: "('w \<times> Call list) AppState \<Rightarrow> 'w AppState" where
  "forget s =
     \<lparr>processingState = processingState s, generatedImages = generatedImages s,
      pendingTimers = pendingTimers s, world = fst (world s)\<rparr>"

text \<open>The calls the outside world received during a run of the handler.\<close>

definition calls_of_run ::
  "'w World \<Rightarrow> Inputs \<Rightarrow> ('w \<times> Call list) AppState \<Rightarrow> Call list" where
  "calls_of_run W I s =
     drop (length (snd (world s))) (snd (world (handleGenerate (recording W) I s)))"

subsection \<open>Reading a run\<close>

text \<open>The presets a selection resolves to, in the order of the selection.\<close>

fun resolved :: "ScenarioPreset list \<Rightarrow> string list \<Rightarrow> ScenarioPreset list" where
  "resolved ps [] = []"
| "resolved ps (i # ids) =
     (case find (\<lambda>p. preset_id p = i) ps of
        None \<Rightarrow> resolved ps ids
      | Some p \<Rightarrow> p # resolved ps ids)"

definition selectedPresets :: "Inputs \<Rightarrow> ScenarioPreset list" where
  "selectedPresets I = resolved (displayPresets I) (selectedPresetIds I)"

text \<open>
  What the calls of one iteration that reaches its end gave back: the expanded prompt,
  the URL of the image, and the three readings that make the id and the timestamp.
\<close>

record Outcome =
  expanded :: string
  image_url :: string
  id_clock :: nat
  id_random :: string
  stamp :: nat

text \<open>
  The calls of an iteration for preset \<open>p\<close> that reaches its end with outcome \<open>oc\<close>, and
  the record it puts in front of the list.
\<close>

definition iteration_calls :: "Inputs \<Rightarrow> string \<Rightarrow> ScenarioPreset \<Rightarrow> Outcome \<Rightarrow> Call list" where
  "iteration_calls I img p oc =
     [ExpandCall (description p) GEMINI_3_PRO_PREVIEW (customContext I) (Inr (expanded oc)),
      GenerateCall img (expanded oc) GEMINI_3_PRO_IMAGE_PREVIEW
        (Some \<lparr>opt_quality = Some (quality p)\<rparr>) (Inr (image_url oc)),
      NowCall (id_clock oc), RandomCall (id_random oc), NowCall (stamp oc)]"

definition record_of :: "ScenarioPreset \<Rightarrow> Outcome \<Rightarrow> GeneratedImage" where
  "record_of p oc =
     \<lparr>image_id = show_nat (id_clock oc) @ take 6 (drop 2 (id_random oc)),
      url = image_url oc,
      prompt = expanded oc,
      vibe = name p,
      timestamp = stamp oc\<rparr>"

text \<open>
  The calls of an iteration for preset \<open>p\<close> that throws: in the expansion, or in the
  image call after the expansion gave \<open>x\<close>.
\<close>

definition expand_failure :: "Inputs \<Rightarrow> ScenarioPreset \<Rightarrow> error \<Rightarrow> Call list" where
  "expand_failure I p e =
     [ExpandCall (description p) GEMINI_3_PRO_PREVIEW (customContext I) (Inl e)]"

definition image_failure ::
  "Inputs \<Rightarrow> string \<Rightarrow> ScenarioPreset \<Rightarrow> string \<Rightarrow> error \<Rightarrow> Call list" where
  "image_failure I img p x e =
     [ExpandCall (description p) GEMINI_3_PRO_PREVIEW (customContext I) (Inr x),
      GenerateCall img x GEMINI_3_PRO_IMAGE_PREVIEW
        (Some \<lparr>opt_quality = Some (quality p)\<rparr>) (Inl e)]"

text \<open>
  The calls of step 1 when it gives the image \<open>img\<close>: the background removal if it was
  asked for, and no call otherwise; then \<open>img\<close> is the preview URL.
\<close>

definition preparation :: "Inputs \<Rightarrow> string \<Rightarrow> Call list" where
  "preparation I img =
     (if removeBg I then [RemoveBgCall (the (selectedFile I)) (Inr img)] else [])"

definition image_used :: "Inputs \<Rightarrow> string \<Rightarrow> bool" where
  "image_used I img = (removeBg I \<or> img = the (previewUrl I))"

text \<open>Whether a call threw; the prompts the image calls of a list were given.\<close>

fun failed :: "Call \<Rightarrow> bool" where
  "failed (RemoveBgCall f r) = isl r"
| "failed (ExpandCall b p c r) = isl r"
| "failed (GenerateCall i e p opts r) = isl r"
| "failed (NowCall t) = False"
| "failed (RandomCall x) = False"

fun image_prompts :: "Call list \<Rightarrow> string list" where
  "image_prompts [] = []"
| "image_prompts (GenerateCall i e p opts r # cs) = e # image_prompts cs"
| "image_prompts (c # cs) = image_prompts cs"

text \<open>No call of a list threw; and: the last call of a list threw and no call before it.\<close>

definition no_failure :: "Call list \<Rightarrow> bool" where
  "no_failure cs = list_all (\<lambda>c. \<not> failed c) cs"

definition fails_last :: "Call list \<Rightarrow> bool" where
  "fails_last cs = (cs \<noteq> [] \<and> failed (last cs) \<and> no_failure (butlast cs))"

text \<open>
  What a part of a run did: the outside world received the calls \<open>cs\<close>, the records
  \<open>new\<close> were put in front of the list, and no timer was set.
\<close>

definition added ::
  "('w \<times> Call list) AppState \<Rightarrow> ('w \<times> Call list) AppState \<Rightarrow> Call list
     \<Rightarrow> GeneratedImage list \<Rightarrow> bool" where
  "added s s' cs new =
     (snd (world s') = snd (world s) @ cs
      \<and> generatedImages s' = new @ generatedImages s
      \<and> pendingTimers s' = pendingTimers s)"
subsection \<open>The handler between its awaits\<close>

text \<open>
  \<open>handleGenerate\<close> is an \<open>async\<close> function: it runs until an \<open>await\<close>, and goes on when
  the awaited call settles; other handlers and timers run in between. A batch that is
  waiting is one of the three \<open>await\<close>s of the source, with the local variables that
  are live there: the image to process, the preset of the iteration, \<open>completed\<close>, and
  the ids the loop has not reached yet.
\<close>

datatype Task =
  AwaitRemoveBg Inputs File
| AwaitExpand Inputs string ScenarioPreset nat "string list"
| AwaitGenerate Inputs string ScenarioPreset string nat "string list"

text \<open>
  The head of the loop: skip the ids that no displayed preset has; for the first preset
  found, count it, set the state to \<open>EXPANDING_PROMPT\<close> and wait for the expansion; when
  no id is left, set \<open>COMPLETED\<close> and the reset timer.
\<close>

fun next_await ::
  "Inputs \<Rightarrow> string \<Rightarrow> string list \<Rightarrow> nat \<Rightarrow> 'w AppState \<Rightarrow> 'w AppState \<times> Task option" where
  "next_await I imageToProcess [] completed s =
     (s\<lparr>processingState := ALL_GENERATED, pendingTimers := pendingTimers s + 1\<rparr>, None)"
| "next_await I imageToProcess (presetId # rest) completed s =
     (case find (\<lambda>p. preset_id p = presetId) (displayPresets I) of
        None \<Rightarrow> next_await I imageToProcess rest completed s
      | Some selectedPreset \<Rightarrow>
          (s\<lparr>processingState :=
               \<lparr>step = EXPANDING_PROMPT,
                message = designing_message (completed + 1) (length (selectedPresetIds I))
                            (name selectedPreset)\<rparr>\<rparr>,
           Some (AwaitExpand I imageToProcess selectedPreset (completed + 1) rest)))"

text \<open>From the click to the first \<open>await\<close>.\<close>

definition start_batch :: "Inputs \<Rightarrow> 'w AppState \<Rightarrow> 'w AppState \<times> Task option" where
  "start_batch I s =
     (if nothing_to_generate I then (s, None)
      else if removeBg I
        then (s\<lparr>processingState := REMOVING_BACKGROUND\<rparr>,
              Some (AwaitRemoveBg I (the (selectedFile I))))
      else next_await I (the (previewUrl I)) (selectedPresetIds I) 0 s)"

text \<open>
  From the settling of the awaited call to the next \<open>await\<close> or to the end: a rejection
  is caught, the state becomes \<open>ERROR\<close> and the batch ends.
\<close>

fun resume :: "'w World \<Rightarrow> Task \<Rightarrow> string \<Rightarrow> 'w AppState \<Rightarrow> 'w AppState \<times> Task option" where
  "resume W (AwaitRemoveBg I file) imageToProcess s =
     next_await I imageToProcess (selectedPresetIds I) 0 s"
| "resume W (AwaitExpand I img p completed rest) expandedPrompt s =
     (s\<lparr>processingState :=
          \<lparr>step = GENERATING_IMAGE,
           message = rendering_message completed (length (selectedPresetIds I)) (name p)\<rparr>\<rparr>,
      Some (AwaitGenerate I img p expandedPrompt completed rest))"
| "resume W (AwaitGenerate I img p expandedPrompt completed rest) generatedImageUrl s =
     (let (newImage, w) = new_image W (name p) expandedPrompt generatedImageUrl (world s)
      in next_await I img rest completed
           (s\<lparr>world := w, generatedImages := newImage # generatedImages s\<rparr>))"

definition settle ::
  "'w World \<Rightarrow> Task \<Rightarrow> error + string \<Rightarrow> 'w AppState \<Rightarrow> 'w AppState \<times> Task option" where
  "settle W t r s =
     (case r of
        Inl e \<Rightarrow> (s\<lparr>processingState := SOMETHING_WENT_WRONG\<rparr>, None)
      | Inr v \<Rightarrow> resume W t v s)"

text \<open>
  The page: the state of the component and the batches that are waiting. What can
  happen: a click on the Generate button with the inputs of the moment, the awaited
  call of a waiting batch settles, a reset timer fires.
\<close>

record 'w Page =
  app :: "'w AppState"
  waiting :: "Task list"

datatype Event =
  ClickGenerate Inputs
| Settles nat "error + string"
| TimerFires

fun page_step :: "'w World \<Rightarrow> 'w Page \<Rightarrow> Event \<Rightarrow> 'w Page" where
  "page_step W pg (ClickGenerate I) =
     (if generate_disabled I (processingState (app pg)) then pg
      else (case start_batch I (app pg) of
              (s, None) \<Rightarrow> pg\<lparr>app := s\<rparr>
            | (s, Some t) \<Rightarrow> pg\<lparr>app := s, waiting := waiting pg @ [t]\<rparr>))"
| "page_step W pg (Settles i r) =
     (if i < length (waiting pg)
      then (case settle W (waiting pg ! i) r (app pg) of
              (s, None) \<Rightarrow> pg\<lparr>app := s, waiting := take i (waiting pg) @ drop (i + 1) (waiting pg)\<rparr>
            | (s, Some t) \<Rightarrow> pg\<lparr>app := s, waiting := (waiting pg)[i := t]\<rparr>)
      else pg)"
| "page_step W pg TimerFires =
     (if pendingTimers (app pg) = 0 then pg else pg\<lparr>app := reset_timer_fired (app pg)\<rparr>)"

definition page_run :: "'w World \<Rightarrow> 'w Page \<Rightarrow> Event list \<Rightarrow> 'w Page" where
  "page_run W pg events = foldl (page_step W) pg events"

text \<open>
  A batch run without anything in between: each awaited call is made in the outside
  world and settles at once.
\<close>

fun perform :: "'w World \<Rightarrow> Task \<Rightarrow> 'w \<Rightarrow> (error + string) \<times> 'w" where
  "perform W (AwaitRemoveBg I file) w = removeWhiteBackground W file w"
| "perform W (AwaitExpand I img p completed rest) w =
     expandPrompt_op W (description p) GEMINI_3_PRO_PREVIEW (customContext I) w"
| "perform W (AwaitGenerate I img p expandedPrompt completed rest) w =
     generateProductScene_op W img expandedPrompt GEMINI_3_PRO_IMAGE_PREVIEW
       (Some \<lparr>opt_quality = Some (quality p)\<rparr>) w"

fun task_size :: "Task \<Rightarrow> nat" where
  "task_size (AwaitRemoveBg I file) = 2 * length (selectedPresetIds I) + 3"
| "task_size (AwaitExpand I img p completed rest) = 2 * length rest + 2"
| "task_size (AwaitGenerate I img p expandedPrompt completed rest) = 2 * length rest + 1"

text \<open>
  Every step of a batch brings it nearer to its end, so a batch whose calls settle at
  once runs to its end: \<open>drive\<close> is total.
\<close>

lemma next_await_size:
  "next_await I img rest k s = (s', Some t) \<Longrightarrow> task_size t \<le> 2 * length rest"
proof (induction rest arbitrary: s)
  case Nil
  then show ?case by simp
next
  case (Cons i rest)
  show ?case
  proof (cases "find (\<lambda>p. preset_id p = i) (displayPresets I)")
    case None
    then have "next_await I img rest k s = (s', Some t)" using Cons.prems by simp
    from Cons.IH [OF this] show ?thesis by simp
  next
    case (Some p)
    then show ?thesis using Cons.prems by auto
  qed
qed

lemma settle_size:
  assumes "settle W t r s = (s', Some t')"
  shows "task_size t' < task_size t"
proof (cases r)
  case (Inl e)
  then show ?thesis using assms by (simp add: settle_def)
next
  case (Inr v)
  then have r: "resume W t v s = (s', Some t')"
    using assms by (simp add: settle_def)
  show ?thesis
  proof (cases t)
    case (AwaitRemoveBg I f)
    then have "next_await I v (selectedPresetIds I) 0 s = (s', Some t')"
      using r by simp
    from next_await_size [OF this] show ?thesis using AwaitRemoveBg by simp
  next
    case (AwaitExpand I img p k rest)
    then show ?thesis using r by auto
  next
    case (AwaitGenerate I img p ex k rest)
    then have "next_await I img rest k
        (s\<lparr>world := snd (new_image W (name p) ex v (world s)),
           generatedImages := fst (new_image W (name p) ex v (world s)) # generatedImages s\<rparr>)
        = (s', Some t')"
      using r by (simp add: case_prod_beta Let_def)
    from next_await_size [OF this] show ?thesis using AwaitGenerate by simp
  qed
qed

function drive :: "'w World \<Rightarrow> Task \<Rightarrow> 'w AppState \<Rightarrow> 'w AppState" where
  "drive W t s =
     (case perform W t (world s) of
        (r, w) \<Rightarrow>
          (case settle W t r (s\<lparr>world := w\<rparr>) of
             (s', None) \<Rightarrow> s'
           | (s', Some t') \<Rightarrow> drive W t' s'))"
  by pat_completeness auto
termination
  by (relation "measure (\<lambda>(W, t, s). task_size t)") (auto dest: settle_size [OF sym])

declare drive.simps [simp del]

text \<open>
  The end of the handler after the \<open>try\<close> block, and the handler run with every call
  settling at once.
\<close>

definition finish :: "error option \<times> 'w AppState \<Rightarrow> 'w AppState" where
  "finish rs =
     (case rs of
        (Some e, s') \<Rightarrow> s'\<lparr>processingState := SOMETHING_WENT_WRONG\<rparr>
      | (None, s') \<Rightarrow>
          s'\<lparr>processingState := ALL_GENERATED, pendingTimers := pendingTimers s' + 1\<rparr>)"

definition go_on :: "'w World \<Rightarrow> 'w AppState \<times> Task option \<Rightarrow> 'w AppState" where
  "go_on W st = (case st of (s', None) \<Rightarrow> s' | (s', Some t) \<Rightarrow> drive W t s')"

definition handleGenerate_async :: "'w World \<Rightarrow> Inputs \<Rightarrow> 'w AppState \<Rightarrow> 'w AppState" where
  "handleGenerate_async W I s = go_on W (start_batch I s)"

subsection \<open>The outside world of the page\<close>

text \<open>
  The outside world as the page has it: the two functions exported by \<open>factory.ts\<close>
  work on the factory and the requests sent; \<open>removeWhiteBackground\<close>, the clock and
  the random source are given. Each reading of the clock or of the random source is
  counted.
\<close>

record Browser =
  factory :: FactoryState
  sent :: "Request list"
  ticks :: nat

definition browser_world ::
  "Network \<Rightarrow> Env \<Rightarrow> (File \<Rightarrow> error + string) \<Rightarrow> (nat \<Rightarrow> nat) \<Rightarrow> (nat \<Rightarrow> string)
     \<Rightarrow> Browser World" where
  "browser_world net env removeBgFn clock rnd =
     \<lparr>removeWhiteBackground = (\<lambda>f b. (removeBgFn f, b)),
      expandPrompt_op =
        (\<lambda>basePrompt p customContext b.
           (case factory_expandPrompt net env basePrompt p customContext (factory b, sent b) of
              (r, (F, t)) \<Rightarrow> (r, b\<lparr>factory := F, sent := t\<rparr>))),
      generateProductScene_op =
        (\<lambda>imageBase64 expandedPrompt p options b.
           (case generateProductScene net env imageBase64 expandedPrompt p options
                   (factory b, sent b) of
              (r, (F, t)) \<Rightarrow> (r, b\<lparr>factory := F, sent := t\<rparr>))),
      Date_now = (\<lambda>b. (clock (ticks b), b\<lparr>ticks := ticks b + 1\<rparr>)),
      Math_random = (\<lambda>b. (rnd (ticks b), b\<lparr>ticks := ticks b + 1\<rparr>))\<rparr>"

section \<open>Example inputs\<close>

definition example_env :: Env where
  "example_env =
     \<lparr>VITE_OPENROUTER_API_KEY = None, process_OPENROUTER_API_KEY = None,
      location_href = ''http://localhost:3000/''\<rparr>"

definition example_config :: LLMServiceConfig where
  "example_config =
     empty_config\<lparr>apiKey := Some ''sk-test'',
       expandPromptUserTemplate := Some ''Scene: {{basePrompt}} ({{customContext}})'',
       generationPromptTemplate := Some ''Draw {{prompt}}''\<rparr>"

definition text_choice :: "string \<Rightarrow> Choice" where
  "text_choice t = \<lparr>choice_message = Some \<lparr>content = Some t, images = None\<rparr>\<rparr>"

definition image_choice :: "string \<Rightarrow> Choice" where
  "image_choice u =
     \<lparr>choice_message = Some \<lparr>content = None, images = Some [ImageAttachment (Some u)]\<rparr>\<rparr>"

definition ok_response :: "Choice list \<Rightarrow> FetchResult" where
  "ok_response cs =
     Resolved \<lparr>ok = True, statusText = ''OK'',
               json = Inr \<lparr>error_message = None, choices = Some cs\<rparr>\<rparr>"

text \<open>A network that is down, and networks that give every request the same answer.\<close>

definition offline :: Network where
  "offline trace req = Rejected ''Failed to fetch''"

definition answering :: "Choice list \<Rightarrow> Network" where
  "answering cs trace req = ok_response cs"

text \<open>A \<open>JSON.parse\<close> that knows one array and rejects every other text.\<close>

definition parse_example :: JSON_parse where
  "parse_example s =
     (if s = ''[\"a\", \"b\"]'' then Inr [''a'', ''b''] else Inl ''Unexpected token'')"

text \<open>
  An outside world whose state counts the calls made: every expansion returns, and the
  image call throws for one prompt only.
\<close>

definition example_world :: "nat World" where
  "example_world =
     \<lparr>removeWhiteBackground = (\<lambda>f w. (Inr ''data:image/png;base64,Q1VU'', w + 1)),
      expandPrompt_op = (\<lambda>b p c w. (Inr (''detailed '' @ b), w + 1)),
      generateProductScene_op =
        (\<lambda>i e p opts w.
           (if e = ''detailed rustic'' then Inl (Error ''Failed to generate image: Failed to fetch'')
            else Inr (''https://img.example/'' @ e), w + 1)),
      Date_now = (\<lambda>w. (1700000000000 + w, w)),
      Math_random = (\<lambda>w. (''0.123456789'', w))\<rparr>"

definition example_preset :: "string \<Rightarrow> string \<Rightarrow> string \<Rightarrow> ScenarioPreset" where
  "example_preset i n d =
     \<lparr>preset_id = i, name = n, description = d, quality = ''8k'', icon = None,
      isRecommended = None\<rparr>"

definition example_inputs :: "string list \<Rightarrow> Inputs" where
  "example_inputs ids =
     \<lparr>selectedFile = Some (File ''product.png''),
      previewUrl = Some ''data:image/png;base64,UE5H'',
      removeBg = True,
      presets = [example_preset ''a'' ''Studio'' ''studio'', example_preset ''b'' ''Beach'' ''beach''],
      aiRecommendations =
        [example_preset ''c'' ''Loft'' ''loft'', example_preset ''r'' ''Rustic'' ''rustic''],
      selectedPresetIds = ids,
      customContext = []\<rparr>"

definition example_state :: "nat AppState" where
  "example_state =
     \<lparr>processingState = \<lparr>step = IDLE, message = []\<rparr>, generatedImages = [],
      pendingTimers = 0, world = 0\<rparr>"

text \<open>The same state in an outside world that has received no call yet.\<close>

definition example_start :: "(nat \<times> Call list) AppState" where
  "example_start =
     \<lparr>processingState = \<lparr>step = IDLE, message = []\<rparr>, generatedImages = [],
      pendingTimers = 0, world = (0, [])\<rparr>"

text \<open>
  A page with nothing waiting; the events of one batch with one preset; and the same
  followed by a second click, whose batch gets its image and waits for the expansion,
  the reset timer of the first batch, and a third click, whose batch gets its image.
\<close>

definition example_page :: "nat Page" where
  "example_page = \<lparr>app = example_state, waiting = []\<rparr>"

definition first_batch :: "Event list" where
  "first_batch =
     [ClickGenerate (example_inputs [''a'']),
      Settles 0 (Inr ''data:image/png;base64,Q1VU''),
      Settles 0 (Inr ''detailed studio''),
      Settles 0 (Inr ''https://img.example/detailed studio'')]"

definition second_click :: "Event list" where
  "second_click =
     first_batch @ [ClickGenerate (example_inputs [''b'']),
                    Settles 0 (Inr ''data:image/png;base64,Q1VU'')]"

definition stale_timer_race :: "Event list" where
  "stale_timer_race =
     second_click @ [TimerFires, ClickGenerate (example_inputs [''c'']),
                     Settles 1 (Inr ''data:image/png;base64,Q1VU'')]"

section \<open>Properties of the template engine\<close>

lemma split_from_nonempty: "split_from sep acc s \<noteq> []"
  by (induction sep acc s rule: split_from.induct) auto

lemma join_str_Cons: "ps \<noteq> [] \<Longrightarrow> join_str (p # ps) glue = p @ glue @ join_str ps glue"
  by (cases ps) auto

lemma join_split_from:
  "join_str (split_from sep acc s) v = rev acc @ replace_all sep v s"
  by (induction sep acc s rule: split_from.induct)
     (auto simp: join_str_Cons split_from_nonempty)

lemma marker_nonempty: "marker k \<noteq> []"
  by (simp add: marker_def)

lemma join_split_marker:
  "join_str (split_str s (marker k)) v = replace_all (marker k) v s"
  by (simp add: split_str_def marker_nonempty join_split_from)

lemma replace_all_absent:
  "\<not> includes_str s sep \<Longrightarrow> replace_all sep v s = s"
  by (induction s) auto

lemma processTemplate_absent:
  "\<forall>k \<in> fst ` set V. \<not> includes_str R (marker k) \<Longrightarrow> processTemplate R V = R"
  by (induction V) (auto simp: join_split_marker replace_all_absent)

lemma prefix_marker_Cons:
  "prefix (marker k) (c # cs) \<Longrightarrow> c = CHR ''{''"
  by (simp add: marker_def)

lemma replace_all_text:
  "CHR ''{'' \<notin> set t \<Longrightarrow> replace_all (marker k) v (t @ s) = t @ replace_all (marker k) v s"
  by (induction t) (auto dest: prefix_marker_Cons)

lemma brace_free_tail_eq:
  "brace_free k \<Longrightarrow> brace_free n \<Longrightarrow> prefix (k @ ''}}'') (n @ ''}}'' @ s) \<longleftrightarrow> k = n"
proof (induction k arbitrary: n)
  case Nil
  then show ?case by (cases n) (auto simp: brace_free_def)
next
  case (Cons a k)
  then show ?case by (cases n) (auto simp: brace_free_def)
qed

lemma prefix_marker_marker:
  "brace_free k \<Longrightarrow> brace_free n \<Longrightarrow> prefix (marker k) (marker n @ s) \<longleftrightarrow> k = n"
  using brace_free_tail_eq [of k n s] by (simp add: marker_def)

lemma replace_all_marker_same:
  "replace_all (marker k) v (marker k @ s) = v @ replace_all (marker k) v s"
  by (simp add: marker_def)

lemma replace_all_marker_other:
  assumes "brace_free k" "brace_free n" "k \<noteq> n"
  shows "replace_all (marker k) v (marker n @ s) = marker n @ replace_all (marker k) v s"
proof -
  have np: "\<not> prefix (marker k) (marker n @ s)"
    using assms prefix_marker_marker by blast
  have tl: "replace_all (marker k) v (CHR ''{'' # n @ ''}}'' @ s)
      = CHR ''{'' # n @ ''}}'' @ replace_all (marker k) v s"
  proof -
    have a: "\<not> prefix (marker k) (CHR ''{'' # n @ ''}}'' @ s)"
      using assms(2) by (cases n) (auto simp: marker_def brace_free_def)
    have b: "replace_all (marker k) v (n @ (''}}'' @ s)) = n @ replace_all (marker k) v (''}}'' @ s)"
      using assms(2) by (intro replace_all_text) (simp add: brace_free_def)
    have c: "replace_all (marker k) v (''}}'' @ s) = ''}}'' @ replace_all (marker k) v s"
      by (intro replace_all_text) simp
    show ?thesis using a b c by simp
  qed
  have "marker n @ s = CHR ''{'' # CHR ''{'' # n @ ''}}'' @ s" by (simp add: marker_def)
  then show ?thesis using np tl by (simp add: marker_def)
qed

lemma replace_all_render:
  "brace_free k \<Longrightarrow> list_all tok_ok toks \<Longrightarrow>
   replace_all (marker k) v (render toks) = render (map (step_tok k v) toks)"
proof (induction toks)
  case Nil
  then show ?case by (simp add: render_def)
next
  case (Cons a toks)
  then have ih: "replace_all (marker k) v (render toks) = render (map (step_tok k v) toks)"
    by simp
  show ?case
  proof (cases a)
    case (Text t)
    then have "CHR ''{'' \<notin> set t" using Cons.prems by (simp add: brace_free_def)
    then show ?thesis using Text ih replace_all_text [of t k v "render toks"]
      by (simp add: render_def)
  next
    case (Marker n)
    then have bn: "brace_free n" using Cons.prems by simp
    show ?thesis
    proof (cases "n = k")
      case True
      then show ?thesis using Marker ih replace_all_marker_same [of k v "render toks"]
        by (simp add: render_def)
    next
      case False
      then show ?thesis
        using Marker ih bn Cons.prems(1) replace_all_marker_other [of k n v "render toks"]
        by (simp add: render_def)
    qed
  qed
qed

lemma step_tok_ok1: "brace_free v \<Longrightarrow> tok_ok a \<Longrightarrow> tok_ok (step_tok k v a)"
  by (cases a) auto

lemma step_tok_ok: "brace_free v \<Longrightarrow> list_all tok_ok toks \<Longrightarrow> list_all tok_ok (map (step_tok k v) toks)"
  by (induction toks) (auto simp: step_tok_ok1)

lemma fill_tok_empty: "fill_tok Map.empty a = a"
  by (cases a) auto

lemma fill_step: "fill_tok (map_of V) (step_tok k v a) = fill_tok (map_of ((k, v) # V)) a"
  by (cases a) auto

lemma processTemplate_render:
  "vars_ok V \<Longrightarrow> list_all tok_ok toks \<Longrightarrow>
   processTemplate (render toks) V = render (map (fill_tok (map_of V)) toks)"
proof (induction V arbitrary: toks)
  case Nil
  have "map (fill_tok (map_of [])) toks = toks"
    by (induction toks) (auto simp: fill_tok_empty)
  then show ?case by simp
next
  case (Cons e V)
  obtain k v where e: "e = (k, v)" by (cases e)
  have bk: "brace_free k" and bv: "brace_free v" and vo: "vars_ok V"
    using Cons.prems(1) e by (simp_all add: vars_ok_def)
  have ok': "list_all tok_ok (map (step_tok k v) toks)"
    using bv Cons.prems(2) by (rule step_tok_ok)
  have "processTemplate (render toks) (e # V) = processTemplate (render (map (step_tok k v) toks)) V"
    using e bk Cons.prems(2) by (simp add: join_split_marker replace_all_render)
  also have "\<dots> = render (map (fill_tok (map_of V)) (map (step_tok k v) toks))"
    using Cons.IH [OF vo ok'] .
  also have "\<dots> = render (map (fill_tok (map_of (e # V))) toks)"
    using e by (simp add: fill_step comp_def del: map_of.simps)
  finally show ?case .
qed

lemma includes_text:
  "CHR ''{'' \<notin> set t \<Longrightarrow> includes_str (t @ s) (marker k) = includes_str s (marker k)"
  by (induction t) (auto simp: marker_nonempty dest: prefix_marker_Cons)

lemma includes_text_end:
  "CHR ''{'' \<notin> set t \<Longrightarrow> \<not> includes_str t (marker k)"
  using includes_text [of t "[]" k] by (simp add: marker_nonempty)

lemma includes_marker:
  assumes "brace_free k" "brace_free n"
  shows "includes_str (marker n @ s) (marker k) \<longleftrightarrow> k = n \<or> includes_str s (marker k)"
proof -
  have p0: "prefix (marker k) (marker n @ s) \<longleftrightarrow> k = n"
    using assms by (rule prefix_marker_marker)
  have p1: "\<not> prefix (marker k) (CHR ''{'' # n @ ''}}'' @ s)"
    using assms(2) by (cases n) (auto simp: marker_def brace_free_def)
  have b: "includes_str (n @ (''}}'' @ s)) (marker k) = includes_str (''}}'' @ s) (marker k)"
    using assms(2) by (intro includes_text) (simp add: brace_free_def)
  have c: "includes_str (''}}'' @ s) (marker k) = includes_str s (marker k)"
    by (intro includes_text) simp
  have "marker n @ s = CHR ''{'' # CHR ''{'' # n @ ''}}'' @ s" by (simp add: marker_def)
  then have "includes_str (marker n @ s) (marker k)
      \<longleftrightarrow> prefix (marker k) (marker n @ s) \<or> prefix (marker k) (CHR ''{'' # n @ ''}}'' @ s)
         \<or> includes_str (n @ (''}}'' @ s)) (marker k)"
    by simp
  then show ?thesis using p0 p1 b c by simp
qed

lemma includes_render:
  "brace_free k \<Longrightarrow> list_all tok_ok toks \<Longrightarrow>
   includes_str (render toks) (marker k) \<longleftrightarrow> Marker k \<in> set toks"
proof (induction toks)
  case Nil
  then show ?case by (simp add: render_def marker_nonempty)
next
  case (Cons a toks)
  then have ih: "includes_str (render toks) (marker k) \<longleftrightarrow> Marker k \<in> set toks" by simp
  show ?case
  proof (cases a)
    case (Text t)
    then have "CHR ''{'' \<notin> set t" using Cons.prems by (simp add: brace_free_def)
    then show ?thesis using Text ih includes_text [of t "render toks" k]
      by (simp add: render_def)
  next
    case (Marker n)
    then have "brace_free n" using Cons.prems by simp
    then show ?thesis using Marker ih Cons.prems(1) includes_marker [of k n "render toks"]
      by (auto simp: render_def)
  qed
qed

lemma vars_ok_value: "vars_ok V \<Longrightarrow> map_of V n = Some v \<Longrightarrow> brace_free v"
  by (induction V) (auto simp: vars_ok_def split: if_splits)

lemma vars_ok_key: "vars_ok V \<Longrightarrow> k \<in> fst ` set V \<Longrightarrow> brace_free k"
  by (induction V) (auto simp: vars_ok_def)

lemma fill_tok_ok: "vars_ok V \<Longrightarrow> tok_ok a \<Longrightarrow> tok_ok (fill_tok (map_of V) a)"
  by (cases a) (auto split: option.splits dest: vars_ok_value)

lemma fill_toks_ok:
  "vars_ok V \<Longrightarrow> list_all tok_ok toks \<Longrightarrow> list_all tok_ok (map (fill_tok (map_of V)) toks)"
  by (induction toks) (auto simp: fill_tok_ok)

lemma fill_tok_no_key: "k \<in> fst ` set V \<Longrightarrow> fill_tok (map_of V) a \<noteq> Marker k"
proof (cases a)
  case (Text t)
  then show ?thesis by simp
next
  case (Marker n)
  assume k: "k \<in> fst ` set V"
  show ?thesis
  proof (cases "map_of V n")
    case None
    then have "n \<notin> fst ` set V" by (simp add: map_of_eq_None_iff)
    then show ?thesis using Marker None k by auto
  next
    case (Some v)
    then show ?thesis using Marker by simp
  qed
qed

lemma vars_ok_filter: "vars_ok V \<Longrightarrow> vars_ok (filter P V)"
  by (induction V) (auto simp: vars_ok_def)

lemma map_of_filter_key:
  "Q n \<Longrightarrow> map_of (filter (\<lambda>(k, v). Q k) V) n = map_of V n"
  by (induction V) auto

text \<open>
  Claim C4, as amended. On a template that is a sequence of brace-free text and markers
  with brace-free names, and for entries whose keys and values are brace-free,
  \<open>processTemplate\<close> replaces every marker whose name is a key by the value of that key
  (the first entry of that key) and leaves every other marker as it is; the result holds
  no marker of any key; and the entries whose marker does not occur in the template have
  no effect on the result.
\<close>

theorem processTemplate_well_formed:
  assumes "vars_ok V" and "list_all tok_ok toks"
  shows "processTemplate (render toks) V = render (map (fill_tok (map_of V)) toks)
    \<and> (\<forall>k \<in> fst ` set V. \<not> includes_str (processTemplate (render toks) V) (marker k))
    \<and> processTemplate (render toks) V
        = processTemplate (render toks)
            (filter (\<lambda>(k, v). includes_str (render toks) (marker k)) V)"
proof -
  let ?T = "render toks"
  let ?V' = "filter (\<lambda>(k, v). includes_str ?T (marker k)) V"
  have r: "processTemplate ?T V = render (map (fill_tok (map_of V)) toks)"
    using assms by (rule processTemplate_render)
  have ok: "list_all tok_ok (map (fill_tok (map_of V)) toks)"
    using assms by (rule fill_toks_ok)
  have none: "\<not> includes_str (processTemplate ?T V) (marker k)" if k: "k \<in> fst ` set V" for k
  proof -
    have "brace_free k" using assms(1) k by (rule vars_ok_key)
    then have "includes_str (render (map (fill_tok (map_of V)) toks)) (marker k)
        \<longleftrightarrow> Marker k \<in> set (map (fill_tok (map_of V)) toks)"
      using ok by (rule includes_render)
    moreover have "Marker k \<notin> set (map (fill_tok (map_of V)) toks)"
      using fill_tok_no_key [OF k] by (auto simp: image_iff) metis
    ultimately show ?thesis using r by simp
  qed
  have r': "processTemplate ?T ?V' = render (map (fill_tok (map_of ?V')) toks)"
    using assms by (intro processTemplate_render vars_ok_filter)
  have same: "fill_tok (map_of ?V') a = fill_tok (map_of V) a" if a: "a \<in> set toks" for a
  proof (cases a)
    case (Text t)
    then show ?thesis by simp
  next
    case (Marker n)
    then have "brace_free n" using a assms(2) by (auto simp: list_all_iff)
    then have "includes_str ?T (marker n)"
      using assms(2) a Marker by (simp add: includes_render)
    then have "map_of ?V' n = map_of V n"
      by (rule map_of_filter_key [where Q = "\<lambda>k. includes_str ?T (marker k)"])
    then show ?thesis using Marker by simp
  qed
  have "map (fill_tok (map_of ?V')) toks = map (fill_tok (map_of V)) toks"
    using same by (intro map_cong) simp_all
  then have eq: "processTemplate ?T V = processTemplate ?T ?V'"
    using r r' by argo
  show ?thesis
  proof (intro conjI ballI)
    show "processTemplate ?T V = render (map (fill_tok (map_of V)) toks)" by (rule r)
    show "\<not> includes_str (processTemplate ?T V) (marker k)" if "k \<in> fst ` set V" for k
      using that by (rule none)
    show "processTemplate ?T V = processTemplate ?T ?V'" by (rule eq)
  qed
qed

text \<open>
  Claim C4 as stated fails where a value holds a marker. The value of \<open>a\<close> is the
  marker of \<open>a\<close>: the marker occurred in the template and still occurs in the result.
  The value of \<open>a\<close> is the marker of \<open>b\<close>: the marker of \<open>b\<close> does not occur in the
  template, yet the entry of \<open>b\<close> changes the result.
\<close>

theorem processTemplate_claim_counterexample:
  "includes_str ''{{a}}'' (marker ''a'')
   \<and> includes_str (processTemplate ''{{a}}'' [(''a'', ''{{a}}'')]) (marker ''a'')
   \<and> \<not> includes_str ''{{a}}'' (marker ''b'')
   \<and> processTemplate ''{{a}}'' [(''a'', ''{{b}}''), (''b'', ''x'')] = ''x''
   \<and> processTemplate ''{{a}}'' [(''a'', ''{{b}}'')] = ''{{b}}''"
  by (simp add: marker_def split_str_def)

text \<open>The amended claim C4 at a template with a matched and an unmatched marker.\<close>

theorem processTemplate_well_formed_witness:
  "vars_ok [(''a'', ''x''), (''c'', ''y'')]
   \<and> list_all tok_ok [Text ''Hi '', Marker ''a'', Marker ''b'']
   \<and> processTemplate ''Hi {{a}}{{b}}'' [(''a'', ''x''), (''c'', ''y'')] = ''Hi x{{b}}''"
  using processTemplate_well_formed [of "[(''a'', ''x''), (''c'', ''y'')]" "[Text ''Hi '', Marker ''a'', Marker ''b'']"]
  by (simp add: vars_ok_def brace_free_def render_def marker_def)

text \<open>
  Claim C8. Once the result of \<open>processTemplate\<close> holds no marker of any key of the
  entries, running \<open>processTemplate\<close> on it again with the same entries returns it
  unchanged.
\<close>

theorem processTemplate_idempotent:
  assumes "\<forall>k \<in> fst ` set V. \<not> includes_str (processTemplate T V) (marker k)"
  shows "processTemplate (processTemplate T V) V = processTemplate T V"
  using assms by (rule processTemplate_absent)

text \<open>Claim C8 at a template with one marker.\<close>

theorem processTemplate_idempotent_witness:
  "\<not> includes_str (processTemplate ''Hi {{a}}'' [(''a'', ''x'')]) (marker ''a'')
   \<and> processTemplate (processTemplate ''Hi {{a}}'' [(''a'', ''x'')]) [(''a'', ''x'')] = ''Hi x''"
  using processTemplate_idempotent [of "[(''a'', ''x'')]" "''Hi {{a}}''"]
  by (simp add: marker_def split_str_def)

section \<open>Properties of the service adapter\<close>

lemma truthy_js_or: "truthy (js_or a b) \<longleftrightarrow> truthy a \<or> truthy b"
  by (simp add: js_or_def)

lemma isAvailable_iff:
  "isAvailable cfg env \<longleftrightarrow>
     truthy (apiKey cfg) \<or> truthy (VITE_OPENROUTER_API_KEY env)
     \<or> (case process_OPENROUTER_API_KEY env of None \<Rightarrow> False | Some k \<Rightarrow> truthy k)"
  by (auto simp: isAvailable_def resolveApiKey_def truthy_js_or split: option.splits)

lemma getApiKey_unavailable:
  "\<not> isAvailable cfg env \<Longrightarrow> getApiKey cfg env = Inl (Error API_KEY_NOT_FOUND)"
  by (cases "resolveApiKey cfg env") (auto simp: isAvailable_def getApiKey_def)

lemma getApiKey_available:
  "isAvailable cfg env \<Longrightarrow> \<exists>key. key \<noteq> [] \<and> getApiKey cfg env = Inr key"
  by (cases "resolveApiKey cfg env") (auto simp: isAvailable_def getApiKey_def)

lemma expandPrompt_unavailable:
  "\<not> isAvailable cfg env \<Longrightarrow>
   expandPrompt net cfg env p b c trace = (Inl (Error API_KEY_NOT_FOUND), trace)"
  by (simp add: expandPrompt_def getApiKey_unavailable)

lemma generateImage_unavailable:
  "\<not> isAvailable cfg env \<Longrightarrow>
   generateImage net cfg env p img pr opts trace = (Inl (Error API_KEY_NOT_FOUND), trace)"
  by (simp add: generateImage_def getApiKey_unavailable)

lemma editImage_unavailable:
  "\<not> isAvailable cfg env \<Longrightarrow>
   editImage net cfg env img msk pr trace = (Inl (Error API_KEY_NOT_FOUND), trace)"
  by (simp add: editImage_def getApiKey_unavailable)

lemma recommendScenarios_unavailable:
  "\<not> isAvailable cfg env \<Longrightarrow>
   recommendScenarios net parse cfg env img trace = (Inl (Error API_KEY_NOT_FOUND), trace)"
  by (simp add: recommendScenarios_def getApiKey_unavailable)

lemma expandPrompt_available:
  assumes "getApiKey cfg env = Inr key"
  shows "expandPrompt net cfg env p b c trace =
     ((case expand_result b (net trace (expand_request cfg env p key b c)) of
         Inl m \<Rightarrow> Inl (Error (''Failed to expand prompt: '' @ m)) | Inr t \<Rightarrow> Inr t),
      trace @ [expand_request cfg env p key b c])"
  using assms by (simp add: expandPrompt_def fetch_def split: sum.splits)

lemma generateImage_available:
  assumes "getApiKey cfg env = Inr key"
  shows "generateImage net cfg env p img pr opts trace =
     ((case generate_result (net trace (generate_request cfg env p key img pr opts)) of
         Inl m \<Rightarrow> Inl (Error (''Failed to generate image: '' @ m)) | Inr u \<Rightarrow> Inr u),
      trace @ [generate_request cfg env p key img pr opts])"
  using assms by (simp add: generateImage_def fetch_def split: sum.splits)

lemma editImage_available:
  assumes "getApiKey cfg env = Inr key"
  shows "editImage net cfg env img msk pr trace =
     ((case edit_result (net trace (edit_request env key img msk pr)) of
         Inl m \<Rightarrow> Inl (Error (''Failed to edit image: '' @ m)) | Inr u \<Rightarrow> Inr u),
      trace @ [edit_request env key img msk pr])"
  using assms by (simp add: editImage_def fetch_def split: sum.splits)

lemma recommendScenarios_available:
  assumes "getApiKey cfg env = Inr key"
  shows "recommendScenarios net parse cfg env img trace =
     (Inr (case recommend_result parse (net trace (recommend_request env key img)) of
         Inl m \<Rightarrow> FALLBACK_SCENARIOS | Inr xs \<Rightarrow> xs),
      trace @ [recommend_request env key img])"
  using assms by (simp add: recommendScenarios_def fetch_def split: sum.splits)

text \<open>
  Claim C5. \<open>isAvailable\<close> is true exactly when the configured key, the build-time
  variable or the process variable is a non-empty string. When it is false,
  \<open>expandPrompt\<close>, \<open>generateImage\<close> and \<open>editImage\<close> throw the missing-key error and
  the trace of requests is as it was: no request is sent. When it is true, none of
  them throws that error.
\<close>

theorem availability:
  "(isAvailable cfg env \<longleftrightarrow>
      truthy (apiKey cfg) \<or> truthy (VITE_OPENROUTER_API_KEY env)
      \<or> (case process_OPENROUTER_API_KEY env of None \<Rightarrow> False | Some k \<Rightarrow> truthy k))
   \<and> (\<not> isAvailable cfg env \<longrightarrow>
        expandPrompt net cfg env p b c trace = (Inl (Error API_KEY_NOT_FOUND), trace)
        \<and> generateImage net cfg env p img pr opts trace = (Inl (Error API_KEY_NOT_FOUND), trace)
        \<and> editImage net cfg env img msk pr trace = (Inl (Error API_KEY_NOT_FOUND), trace))
   \<and> (isAvailable cfg env \<longrightarrow>
        fst (expandPrompt net cfg env p b c trace) \<noteq> Inl (Error API_KEY_NOT_FOUND)
        \<and> fst (generateImage net cfg env p img pr opts trace) \<noteq> Inl (Error API_KEY_NOT_FOUND)
        \<and> fst (editImage net cfg env img msk pr trace) \<noteq> Inl (Error API_KEY_NOT_FOUND))"
proof (intro conjI impI)
  show "isAvailable cfg env \<longleftrightarrow>
      truthy (apiKey cfg) \<or> truthy (VITE_OPENROUTER_API_KEY env)
      \<or> (case process_OPENROUTER_API_KEY env of None \<Rightarrow> False | Some k \<Rightarrow> truthy k)"
    by (rule isAvailable_iff)
next
  assume "\<not> isAvailable cfg env"
  then show "expandPrompt net cfg env p b c trace = (Inl (Error API_KEY_NOT_FOUND), trace)"
    and "generateImage net cfg env p img pr opts trace = (Inl (Error API_KEY_NOT_FOUND), trace)"
    and "editImage net cfg env img msk pr trace = (Inl (Error API_KEY_NOT_FOUND), trace)"
    by (simp_all add: expandPrompt_unavailable generateImage_unavailable editImage_unavailable)
next
  assume "isAvailable cfg env"
  then obtain key where k: "getApiKey cfg env = Inr key"
    using getApiKey_available by blast
  show "fst (expandPrompt net cfg env p b c trace) \<noteq> Inl (Error API_KEY_NOT_FOUND)"
    by (simp add: expandPrompt_available [OF k] API_KEY_NOT_FOUND_def split: sum.splits)
  show "fst (generateImage net cfg env p img pr opts trace) \<noteq> Inl (Error API_KEY_NOT_FOUND)"
    by (simp add: generateImage_available [OF k] API_KEY_NOT_FOUND_def split: sum.splits)
  show "fst (editImage net cfg env img msk pr trace) \<noteq> Inl (Error API_KEY_NOT_FOUND)"
    by (simp add: editImage_available [OF k] API_KEY_NOT_FOUND_def split: sum.splits)
qed

text \<open>Claim C5 at a configuration without a key and at one with a key.\<close>

theorem availability_witness:
  "\<not> isAvailable empty_config example_env
   \<and> expandPrompt offline empty_config example_env GEMINI_3_PRO_PREVIEW ''studio'' '''' []
       = (Inl (Error API_KEY_NOT_FOUND), [])
   \<and> isAvailable example_config example_env
   \<and> fst (expandPrompt offline example_config example_env GEMINI_3_PRO_PREVIEW ''studio'' '''' [])
       \<noteq> Inl (Error API_KEY_NOT_FOUND)"
  using availability [of empty_config example_env offline GEMINI_3_PRO_PREVIEW "''studio''" "''''" "[]"]
    availability [of example_config example_env offline GEMINI_3_PRO_PREVIEW "''studio''" "''''" "[]"]
  by (simp add: empty_config_def example_env_def example_config_def)

text \<open>
  Claim C9. With a credential configured, each of the four operations sends exactly
  one request, whatever the network answers; when that one call fails (the fetch is
  rejected, the status is not OK or the body cannot be read) the operation throws the
  wrapped error, and \<open>recommendScenarios\<close> returns the fallback list.
\<close>

theorem one_request_per_operation:
  assumes "isAvailable cfg env"
  shows "(\<exists>r. snd (expandPrompt net cfg env p b c trace) = trace @ [r]
            \<and> (\<forall>m. read_response (net trace r) = Inl m \<longrightarrow>
                  fst (expandPrompt net cfg env p b c trace)
                    = Inl (Error (''Failed to expand prompt: '' @ m))))
    \<and> (\<exists>r. snd (generateImage net cfg env p img pr opts trace) = trace @ [r]
            \<and> (\<forall>m. read_response (net trace r) = Inl m \<longrightarrow>
                  fst (generateImage net cfg env p img pr opts trace)
                    = Inl (Error (''Failed to generate image: '' @ m))))
    \<and> (\<exists>r. snd (recommendScenarios net parse cfg env img trace) = trace @ [r]
            \<and> (\<forall>m. read_response (net trace r) = Inl m \<longrightarrow>
                  fst (recommendScenarios net parse cfg env img trace) = Inr FALLBACK_SCENARIOS))
    \<and> (\<exists>r. snd (editImage net cfg env img msk pr trace) = trace @ [r]
            \<and> (\<forall>m. read_response (net trace r) = Inl m \<longrightarrow>
                  fst (editImage net cfg env img msk pr trace)
                    = Inl (Error (''Failed to edit image: '' @ m))))"
proof -
  obtain key where k: "getApiKey cfg env = Inr key"
    using assms getApiKey_available by blast
  have e: "\<exists>r. snd (expandPrompt net cfg env p b c trace) = trace @ [r]
            \<and> (\<forall>m. read_response (net trace r) = Inl m \<longrightarrow>
                  fst (expandPrompt net cfg env p b c trace)
                    = Inl (Error (''Failed to expand prompt: '' @ m)))"
    by (rule exI [of _ "expand_request cfg env p key b c"])
       (simp add: expandPrompt_available [OF k] expand_result_def)
  have g: "\<exists>r. snd (generateImage net cfg env p img pr opts trace) = trace @ [r]
            \<and> (\<forall>m. read_response (net trace r) = Inl m \<longrightarrow>
                  fst (generateImage net cfg env p img pr opts trace)
                    = Inl (Error (''Failed to generate image: '' @ m)))"
    by (rule exI [of _ "generate_request cfg env p key img pr opts"])
       (simp add: generateImage_available [OF k] generate_result_def)
  have r: "\<exists>r. snd (recommendScenarios net parse cfg env img trace) = trace @ [r]
            \<and> (\<forall>m. read_response (net trace r) = Inl m \<longrightarrow>
                  fst (recommendScenarios net parse cfg env img trace) = Inr FALLBACK_SCENARIOS)"
    by (rule exI [of _ "recommend_request env key img"])
       (simp add: recommendScenarios_available [OF k] recommend_result_def)
  have d: "\<exists>r. snd (editImage net cfg env img msk pr trace) = trace @ [r]
            \<and> (\<forall>m. read_response (net trace r) = Inl m \<longrightarrow>
                  fst (editImage net cfg env img msk pr trace)
                    = Inl (Error (''Failed to edit image: '' @ m)))"
    by (rule exI [of _ "edit_request env key img msk pr"])
       (simp add: editImage_available [OF k] edit_result_def)
  show ?thesis using e g r d by blast
qed

text \<open>Claim C9 at a network that is down.\<close>

theorem one_request_per_operation_witness:
  "isAvailable example_config example_env
   \<and> length (snd (expandPrompt offline example_config example_env GEMINI_3_PRO_PREVIEW ''studio'' '''' [])) = 1
   \<and> fst (expandPrompt offline example_config example_env GEMINI_3_PRO_PREVIEW ''studio'' '''' [])
       = Inl (Error ''Failed to expand prompt: Failed to fetch'')
   \<and> length (snd (recommendScenarios offline parse_example example_config example_env ''AAAA'' [])) = 1
   \<and> fst (recommendScenarios offline parse_example example_config example_env ''AAAA'' [])
       = Inr FALLBACK_SCENARIOS"
proof -
  have a: "isAvailable example_config example_env"
    by (simp add: isAvailable_iff example_config_def empty_config_def)
  have rr: "read_response (offline t r) = Inl ''Failed to fetch''" for t r
    by (simp add: read_response_def offline_def)
  show ?thesis
    using a rr one_request_per_operation [OF a, of offline GEMINI_3_PRO_PREVIEW "''studio''" "''''" "[]"
        "''AAAA''" "''x''" None parse_example "''BBBB''"]
    by auto
qed

lemma recommend_result_cases:
  assumes "read_response res = Inr d" "choices d = Some cs"
  shows "indexOf (jsonString_of cs) (CHR ''['') = None
           \<or> lastIndexOf (jsonString_of cs) (CHR '']'') = None
         \<Longrightarrow> recommend_result parse res = Inr []"
    and "indexOf (jsonString_of cs) (CHR ''['') = Some a
         \<Longrightarrow> lastIndexOf (jsonString_of cs) (CHR '']'') = Some z
         \<Longrightarrow> recommend_result parse res = parse (substring (jsonString_of cs) a (z + 1))"
  using assms by (auto simp: recommend_result_def Let_def split: option.splits)

text \<open>
  Claim C2, as amended. Without a credential \<open>recommendScenarios\<close> throws the
  missing-key error. With one it never throws: it returns the fallback list when the
  call fails, when the body has no choices and when \<open>JSON.parse\<close> rejects the text from
  the first \<open>[\<close> to the last \<open>]\<close>; it returns the empty list when the text has no
  \<open>[\<close> or no \<open>]\<close>; and it returns what \<open>JSON.parse\<close> returns otherwise.
\<close>

theorem recommendScenarios_results:
  "(\<not> isAvailable cfg env \<longrightarrow>
      recommendScenarios net parse cfg env img trace = (Inl (Error API_KEY_NOT_FOUND), trace))
   \<and> (getApiKey cfg env = Inr key \<longrightarrow>
        (\<exists>xs. fst (recommendScenarios net parse cfg env img trace) = Inr xs))
   \<and> (getApiKey cfg env = Inr key
        \<and> read_response (net trace (recommend_request env key img)) = Inl m \<longrightarrow>
        fst (recommendScenarios net parse cfg env img trace) = Inr FALLBACK_SCENARIOS)
   \<and> (getApiKey cfg env = Inr key
        \<and> read_response (net trace (recommend_request env key img)) = Inr d
        \<and> choices d = None \<longrightarrow>
        fst (recommendScenarios net parse cfg env img trace) = Inr FALLBACK_SCENARIOS)
   \<and> (getApiKey cfg env = Inr key
        \<and> read_response (net trace (recommend_request env key img)) = Inr d
        \<and> choices d = Some cs
        \<and> (indexOf (jsonString_of cs) (CHR ''['') = None
             \<or> lastIndexOf (jsonString_of cs) (CHR '']'') = None) \<longrightarrow>
        fst (recommendScenarios net parse cfg env img trace) = Inr [])
   \<and> (getApiKey cfg env = Inr key
        \<and> read_response (net trace (recommend_request env key img)) = Inr d
        \<and> choices d = Some cs
        \<and> indexOf (jsonString_of cs) (CHR ''['') = Some a
        \<and> lastIndexOf (jsonString_of cs) (CHR '']'') = Some z
        \<and> parse (substring (jsonString_of cs) a (z + 1)) = Inl e \<longrightarrow>
        fst (recommendScenarios net parse cfg env img trace) = Inr FALLBACK_SCENARIOS)
   \<and> (getApiKey cfg env = Inr key
        \<and> read_response (net trace (recommend_request env key img)) = Inr d
        \<and> choices d = Some cs
        \<and> indexOf (jsonString_of cs) (CHR ''['') = Some a
        \<and> lastIndexOf (jsonString_of cs) (CHR '']'') = Some z
        \<and> parse (substring (jsonString_of cs) a (z + 1)) = Inr xs \<longrightarrow>
        fst (recommendScenarios net parse cfg env img trace) = Inr xs)"
proof (intro conjI impI; (elim conjE)?)
  assume "\<not> isAvailable cfg env"
  then show "recommendScenarios net parse cfg env img trace = (Inl (Error API_KEY_NOT_FOUND), trace)"
    by (rule recommendScenarios_unavailable)
next
  assume k: "getApiKey cfg env = Inr key"
  show "\<exists>xs. fst (recommendScenarios net parse cfg env img trace) = Inr xs"
    by (simp add: recommendScenarios_available [OF k])
next
  assume k: "getApiKey cfg env = Inr key"
    and "read_response (net trace (recommend_request env key img)) = Inl m"
  then show "fst (recommendScenarios net parse cfg env img trace) = Inr FALLBACK_SCENARIOS"
    by (simp add: recommendScenarios_available [OF k] recommend_result_def)
next
  assume k: "getApiKey cfg env = Inr key"
    and "read_response (net trace (recommend_request env key img)) = Inr d" "choices d = None"
  then show "fst (recommendScenarios net parse cfg env img trace) = Inr FALLBACK_SCENARIOS"
    by (simp add: recommendScenarios_available [OF k] recommend_result_def)
next
  assume k: "getApiKey cfg env = Inr key"
    and rd: "read_response (net trace (recommend_request env key img)) = Inr d"
    and ch: "choices d = Some cs"
    and nb: "indexOf (jsonString_of cs) (CHR ''['') = None
             \<or> lastIndexOf (jsonString_of cs) (CHR '']'') = None"
  show "fst (recommendScenarios net parse cfg env img trace) = Inr []"
    by (simp add: recommendScenarios_available [OF k] recommend_result_cases(1) [OF rd ch nb])
next
  assume k: "getApiKey cfg env = Inr key"
    and rd: "read_response (net trace (recommend_request env key img)) = Inr d"
    and ch: "choices d = Some cs"
    and ia: "indexOf (jsonString_of cs) (CHR ''['') = Some a"
    and lz: "lastIndexOf (jsonString_of cs) (CHR '']'') = Some z"
    and pe: "parse (substring (jsonString_of cs) a (z + 1)) = Inl e"
  show "fst (recommendScenarios net parse cfg env img trace) = Inr FALLBACK_SCENARIOS"
    using pe by (simp add: recommendScenarios_available [OF k] recommend_result_cases(2) [OF rd ch ia lz])
next
  assume k: "getApiKey cfg env = Inr key"
    and rd: "read_response (net trace (recommend_request env key img)) = Inr d"
    and ch: "choices d = Some cs"
    and ia: "indexOf (jsonString_of cs) (CHR ''['') = Some a"
    and lz: "lastIndexOf (jsonString_of cs) (CHR '']'') = Some z"
    and pe: "parse (substring (jsonString_of cs) a (z + 1)) = Inr xs"
  show "fst (recommendScenarios net parse cfg env img trace) = Inr xs"
    using pe by (simp add: recommendScenarios_available [OF k] recommend_result_cases(2) [OF rd ch ia lz])
qed

lemma example_key: "getApiKey example_config example_env = Inr ''sk-test''"
  by (simp add: getApiKey_def resolveApiKey_def js_or_def example_config_def
      example_env_def empty_config_def)

lemma isSpace_simps:
  "isSpace c \<longleftrightarrow> c = CHR '' '' \<or> c = CHR 0x09 \<or> c = CHR 0x0A \<or> c = CHR 0x0B \<or> c = CHR 0x0C
     \<or> c = CHR 0x0D \<or> c = CHR 0xA0"
  by (auto simp: isSpace_def)

lemma refusal_result:
  "recommend_result parse (answering [text_choice ''I cannot help with that request.''] t r) = Inr []"
  by (simp add: recommend_result_def read_response_def answering_def ok_response_def
      text_choice_def jsonString_of_def first_content_def choice_content_def or_default_def fence_def trim_def
      isSpace_simps lastIndexOf_def)

text \<open>
  Claim C2 as stated fails on a refusal in prose: the text has no bracket, and the
  result is the empty list, not the fallback list. And without a credential the
  missing-key error reaches the caller.
\<close>

theorem recommendScenarios_claim_counterexample:
  "fst (recommendScenarios (answering [text_choice ''I cannot help with that request.''])
          parse_example example_config example_env ''AAAA'' []) = Inr []
   \<and> FALLBACK_SCENARIOS \<noteq> []
   \<and> fst (recommendScenarios (answering [text_choice ''I cannot help with that request.''])
          parse_example empty_config example_env ''AAAA'' []) = Inl (Error API_KEY_NOT_FOUND)"
proof -
  have u: "\<not> isAvailable empty_config example_env"
    by (simp add: isAvailable_iff empty_config_def example_env_def)
  show ?thesis
    by (simp add: recommendScenarios_available [OF example_key] refusal_result
        recommendScenarios_unavailable [OF u] FALLBACK_SCENARIOS_def)
qed

text \<open>The amended claim C2 at a network that is down and at a text that is not JSON.\<close>

theorem recommendScenarios_results_witness:
  "\<not> isAvailable empty_config example_env
   \<and> getApiKey example_config example_env = Inr ''sk-test''
   \<and> fst (recommendScenarios offline parse_example example_config example_env ''AAAA'' [])
       = Inr FALLBACK_SCENARIOS
   \<and> fst (recommendScenarios (answering [text_choice ''Sure: [a, b] enjoy''])
            parse_example example_config example_env ''AAAA'' []) = Inr FALLBACK_SCENARIOS"
proof -
  let ?req = "recommend_request example_env ''sk-test'' ''AAAA''"
  let ?t = "''Sure: [a, b] enjoy''"
  let ?d = "\<lparr>error_message = None, choices = Some [text_choice ?t]\<rparr>"
  have u: "\<not> isAvailable empty_config example_env"
    by (simp add: isAvailable_iff empty_config_def example_env_def)
  have r: "read_response (offline [] ?req) = Inl ''Failed to fetch''"
    by (simp add: read_response_def offline_def)
  have a: "read_response (answering [text_choice ?t] [] ?req) = Inr ?d"
    by (simp add: read_response_def answering_def ok_response_def)
  have j: "jsonString_of [text_choice ?t] = ?t"
    by (simp add: jsonString_of_def first_content_def choice_content_def text_choice_def
        or_default_def fence_def trim_def isSpace_simps)
  have i: "indexOf (jsonString_of [text_choice ?t]) (CHR ''['') = Some 6"
    "lastIndexOf (jsonString_of [text_choice ?t]) (CHR '']'') = Some 11"
    by (simp_all add: j lastIndexOf_def)
  have p: "parse_example (substring (jsonString_of [text_choice ?t]) 6 (11 + 1))
      = Inl ''Unexpected token''"
    by (simp add: j substring_def parse_example_def)
  have c1: "fst (recommendScenarios offline parse_example example_config example_env ''AAAA'' [])
       = Inr FALLBACK_SCENARIOS"
    using recommendScenarios_results [of example_config example_env offline parse_example
      "''AAAA''" "[]" "''sk-test''" "''Failed to fetch''"] example_key r by blast
  have c3: "fst (recommendScenarios (answering [text_choice ?t])
            parse_example example_config example_env ''AAAA'' []) = Inr FALLBACK_SCENARIOS"
    using recommendScenarios_results [of example_config example_env "answering [text_choice ?t]"
      parse_example "''AAAA''" "[]" "''sk-test''" _ ?d "[text_choice ?t]" 6 11 "''Unexpected token''"]
      example_key a i p by simp
  show ?thesis using u example_key c1 c3 by simp
qed

lemma includes_nonempty: "includes_str g sub \<Longrightarrow> sub \<noteq> [] \<Longrightarrow> g \<noteq> []"
  by (cases g) auto

lemma content_image_truthy: "content_image t = Some u \<Longrightarrow> u \<noteq> []"
  by (auto simp: content_image_def Let_def split: option.splits if_splits
      dest: includes_nonempty)

lemma attachment_url_truthy: "attachment_url c = Some u \<Longrightarrow> u \<noteq> []"
  by (auto simp: attachment_url_def split: option.splits list.splits if_splits)

lemma scan_choice_truthy: "scan_choice c = Some u \<Longrightarrow> u \<noteq> []"
  by (auto simp: scan_choice_def split: option.splits if_splits
      dest: content_image_truthy attachment_url_truthy)

lemma scan_choices_skip:
  "\<forall>c' \<in> set pre. scan_choice c' = None \<Longrightarrow> scan_choices (pre @ cs) = scan_choices cs"
  by (induction pre) auto

lemma scan_choices_first:
  "\<forall>c' \<in> set pre. scan_choice c' = None \<Longrightarrow> scan_choice c = Some u \<Longrightarrow>
   scan_choices (pre @ c # post) = Some u"
  by (simp add: scan_choices_skip)

lemma generate_result_found:
  assumes "res = Resolved resp" "ok resp" "json resp = Inr d" "choices d = Some (pre @ c # post)"
    and "\<forall>c' \<in> set pre. scan_choice c' = None" and "scan_choice c = Some u"
  shows "generate_result res = Inr u"
proof -
  have "find_image d = Some u"
    using assms(4-6) by (simp add: find_image_def scan_choices_first)
  moreover have "u \<noteq> []" using assms(6) by (rule scan_choice_truthy)
  moreover have "read_response res = Inr d"
    using assms(1-3) by (simp add: read_response_def)
  ultimately show ?thesis by (simp add: generate_result_def)
qed

text \<open>
  Claim C3, as amended. The choices are scanned in order, and the first choice that
  yields a payload decides. When no earlier choice yields one, \<open>generateImage\<close> returns
  from a choice: the URL of its structured attachment if it has one. Else, when its
  text holds a markdown image link, the target of the first such link if that target
  contains \<open>http\<close>; if it does not, the text itself when the text starts with
  \<open>data:image\<close>; a bare URL is not looked for in a text that holds a markdown image
  link. Else, when the text holds no markdown image link and holds a bare URL, the
  first such URL if it contains \<open>http\<close> in small letters; if it does not, the text
  itself when it starts with \<open>data:image\<close>. Else the text itself when it starts with
  \<open>data:image\<close>. In every other case the choice yields nothing and the scan goes on.
\<close>

theorem generateImage_first_payload:
  assumes "getApiKey cfg env = Inr key"
    and "net trace (generate_request cfg env p key img pr opts) = Resolved resp"
    and "ok resp" and "json resp = Inr d"
    and "choices d = Some (pre @ c # post)"
    and "\<forall>c' \<in> set pre. scan_choice c' = None"
  shows "(attachment_url c = Some u \<longrightarrow>
            fst (generateImage net cfg env p img pr opts trace) = Inr u)
     \<and> (attachment_url c = None \<and> choice_content c = Some t \<and> t \<noteq> []
          \<and> md_match t = Some u \<and> includes_str u ''http'' \<longrightarrow>
            fst (generateImage net cfg env p img pr opts trace) = Inr u)
     \<and> (attachment_url c = None \<and> choice_content c = Some t \<and> t \<noteq> []
          \<and> md_match t = Some g \<and> \<not> includes_str g ''http'' \<and> prefix ''data:image'' t \<longrightarrow>
            fst (generateImage net cfg env p img pr opts trace) = Inr t)
     \<and> (attachment_url c = None \<and> choice_content c = Some t \<and> t \<noteq> []
          \<and> md_match t = None \<and> url_match t = Some u \<and> includes_str u ''http'' \<longrightarrow>
            fst (generateImage net cfg env p img pr opts trace) = Inr u)
     \<and> (attachment_url c = None \<and> choice_content c = Some t \<and> t \<noteq> []
          \<and> md_match t = None \<and> url_match t = Some g \<and> \<not> includes_str g ''http''
          \<and> prefix ''data:image'' t \<longrightarrow>
            fst (generateImage net cfg env p img pr opts trace) = Inr t)
     \<and> (attachment_url c = None \<and> choice_content c = Some t \<and> t \<noteq> []
          \<and> md_match t = None \<and> url_match t = None \<and> prefix ''data:image'' t \<longrightarrow>
            fst (generateImage net cfg env p img pr opts trace) = Inr t)
     \<and> (attachment_url c = None \<and> choice_content c = Some t
          \<and> md_match t = Some g \<and> \<not> includes_str g ''http'' \<and> \<not> prefix ''data:image'' t \<longrightarrow>
            scan_choice c = None)
     \<and> (attachment_url c = None \<and> choice_content c = Some t
          \<and> md_match t = None \<and> url_match t = Some g \<and> \<not> includes_str g ''http''
          \<and> \<not> prefix ''data:image'' t \<longrightarrow>
            scan_choice c = None)
     \<and> (attachment_url c = None \<and> choice_content c = Some t
          \<and> md_match t = None \<and> url_match t = None \<and> \<not> prefix ''data:image'' t \<longrightarrow>
            scan_choice c = None)
     \<and> (attachment_url c = None \<and> \<not> truthy (choice_content c) \<longrightarrow> scan_choice c = None)"
proof -
  have g: "fst (generateImage net cfg env p img pr opts trace) = Inr v"
    if "scan_choice c = Some v" for v
    using generate_result_found [OF assms(2-6) that]
    by (simp add: generateImage_available [OF assms(1)])
  show ?thesis
  proof (intro conjI impI; (elim conjE)?)
    assume "attachment_url c = Some u"
    then have "scan_choice c = Some u" by (simp add: scan_choice_def)
    then show "fst (generateImage net cfg env p img pr opts trace) = Inr u" by (rule g)
  next
    assume "attachment_url c = None" "choice_content c = Some t" "t \<noteq> []"
      "md_match t = Some u" "includes_str u ''http''"
    then have "scan_choice c = Some u" by (simp add: scan_choice_def content_image_def)
    then show "fst (generateImage net cfg env p img pr opts trace) = Inr u" by (rule g)
  next
    assume "attachment_url c = None" "choice_content c = Some t" "t \<noteq> []"
      "md_match t = Some g" "\<not> includes_str g ''http''" "prefix ''data:image'' t"
    then have "scan_choice c = Some t" by (simp add: scan_choice_def content_image_def)
    then show "fst (generateImage net cfg env p img pr opts trace) = Inr t" by (rule g)
  next
    assume "attachment_url c = None" "choice_content c = Some t" "t \<noteq> []"
      "md_match t = None" "url_match t = Some u" "includes_str u ''http''"
    then have "scan_choice c = Some u" by (simp add: scan_choice_def content_image_def)
    then show "fst (generateImage net cfg env p img pr opts trace) = Inr u" by (rule g)
  next
    assume "attachment_url c = None" "choice_content c = Some t" "t \<noteq> []"
      "md_match t = None" "url_match t = Some g" "\<not> includes_str g ''http''"
      "prefix ''data:image'' t"
    then have "scan_choice c = Some t" by (simp add: scan_choice_def content_image_def)
    then show "fst (generateImage net cfg env p img pr opts trace) = Inr t" by (rule g)
  next
    assume "attachment_url c = None" "choice_content c = Some t" "t \<noteq> []"
      "md_match t = None" "url_match t = None" "prefix ''data:image'' t"
    then have "scan_choice c = Some t" by (simp add: scan_choice_def content_image_def)
    then show "fst (generateImage net cfg env p img pr opts trace) = Inr t" by (rule g)
  next
    assume "attachment_url c = None" "choice_content c = Some t"
      "md_match t = Some g" "\<not> includes_str g ''http''" "\<not> prefix ''data:image'' t"
    then show "scan_choice c = None" by (simp add: scan_choice_def content_image_def)
  next
    assume "attachment_url c = None" "choice_content c = Some t"
      "md_match t = None" "url_match t = Some g" "\<not> includes_str g ''http''"
      "\<not> prefix ''data:image'' t"
    then show "scan_choice c = None" by (simp add: scan_choice_def content_image_def)
  next
    assume "attachment_url c = None" "choice_content c = Some t"
      "md_match t = None" "url_match t = None" "\<not> prefix ''data:image'' t"
    then show "scan_choice c = None" by (simp add: scan_choice_def content_image_def)
  next
    assume "attachment_url c = None" "\<not> truthy (choice_content c)"
    then show "scan_choice c = None" by (simp add: scan_choice_def)
  qed
qed

lemma url_at_simps:
  "url_at [] = None"
  "url_at (c # cs) =
     (if ci_prefix ''https://'' (c # cs)
      then (let run = takeWhile (\<lambda>c. \<not> isSpace c \<and> c \<noteq> CHR '')'') (drop 8 (c # cs))
            in if run = [] then None else Some (take 8 (c # cs) @ run))
      else if ci_prefix ''http://'' (c # cs)
      then (let run = takeWhile (\<lambda>c. \<not> isSpace c \<and> c \<noteq> CHR '')'') (drop 7 (c # cs))
            in if run = [] then None else Some (take 7 (c # cs) @ run))
      else None)"
  by (simp_all add: url_at_def)

text \<open>The bare URL ends at a no-break space, which \<open>\s\<close> matches.\<close>

lemma url_match_no_break_space:
  "url_match (''see http://a.io/b'' @ [CHR 0xA0] @ ''c'') = Some ''http://a.io/b''"
  "url_match (''see http://'' @ [CHR 0xA0] @ ''c'') = None"
  by (simp_all add: url_at_simps isSpace_simps)

text \<open>
  Claim C3 as stated fails when an earlier choice holds a URL in its text: the image is
  only in the attachment of the second choice, and the URL of the first is returned.
\<close>

theorem generateImage_claim_counterexample:
  "attachment_url (text_choice ''Read https://example.com/docs first'') = None
   \<and> attachment_url (image_choice ''data:image/png;base64,QUJD'') = Some ''data:image/png;base64,QUJD''
   \<and> fst (generateImage
        (answering [text_choice ''Read https://example.com/docs first'',
                    image_choice ''data:image/png;base64,QUJD''])
        example_config example_env GEMINI_3_PRO_IMAGE_PREVIEW ''AAAA'' ''a studio'' None [])
      = Inr ''https://example.com/docs''"
proof -
  have m: "md_match ''Read https://example.com/docs first'' = None" by simp
  have u: "url_match ''Read https://example.com/docs first'' = Some ''https://example.com/docs''"
    by (simp add: url_at_simps isSpace_simps)
  have s: "scan_choice (text_choice ''Read https://example.com/docs first'')
      = Some ''https://example.com/docs''"
    by (simp add: scan_choice_def attachment_url_def choice_content_def text_choice_def
        content_image_def m u del: md_match.simps url_match.simps)
  show ?thesis
    by (simp add: generateImage_available [OF example_key] generate_result_def read_response_def
        answering_def ok_response_def find_image_def s)
       (simp add: attachment_url_def text_choice_def image_choice_def)
qed

text \<open>
  The amended claim C3 at a response whose first choice is plain text and whose second
  choice holds a markdown image link without \<open>http\<close> and a bare URL: neither yields a
  payload, and the attachment of the third choice is returned.
\<close>

theorem generateImage_first_payload_witness:
  "scan_choice (text_choice ''Here is your image'') = None
   \<and> scan_choice (text_choice ''![logo](logo.png) at https://example.com/a.png'') = None
   \<and> attachment_url (image_choice ''data:image/png;base64,QUJD'') = Some ''data:image/png;base64,QUJD''
   \<and> fst (generateImage
        (answering [text_choice ''Here is your image'',
                    text_choice ''![logo](logo.png) at https://example.com/a.png'',
                    image_choice ''data:image/png;base64,QUJD''])
        example_config example_env GEMINI_3_PRO_IMAGE_PREVIEW ''AAAA'' ''a studio'' None [])
      = Inr ''data:image/png;base64,QUJD''"
proof -
  let ?t2 = "''![logo](logo.png) at https://example.com/a.png''"
  let ?cs = "[text_choice ''Here is your image'', text_choice ?t2]"
  let ?c = "image_choice ''data:image/png;base64,QUJD''"
  let ?d = "\<lparr>error_message = None, choices = Some (?cs @ ?c # [])\<rparr>"
  let ?resp = "\<lparr>ok = True, statusText = ''OK'', json = Inr ?d\<rparr>"
  have m: "md_match ''Here is your image'' = None" by simp
  have u: "url_match ''Here is your image'' = None" by (simp add: url_at_simps)
  have s: "scan_choice (text_choice ''Here is your image'') = None"
    by (simp add: scan_choice_def attachment_url_def choice_content_def text_choice_def
        content_image_def m u del: md_match.simps url_match.simps)
  have m2: "md_match ?t2 = Some ''logo.png''" by (simp add: isLineTerminator_def)
  have s2: "scan_choice (text_choice ?t2) = None"
    by (simp add: scan_choice_def attachment_url_def choice_content_def text_choice_def
        content_image_def m2 del: md_match.simps url_match.simps)
  have a: "attachment_url ?c = Some ''data:image/png;base64,QUJD''"
    by (simp add: attachment_url_def image_choice_def)
  have n: "answering (?cs @ [?c]) [] r = Resolved ?resp" for r
    by (simp add: answering_def ok_response_def)
  have o: "ok ?resp" and jr: "json ?resp = Inr ?d" and ch: "choices ?d = Some (?cs @ ?c # [])"
    and pre: "\<forall>c' \<in> set ?cs. scan_choice c' = None"
    using s s2 by simp_all
  have "fst (generateImage (answering (?cs @ [?c])) example_config example_env
          GEMINI_3_PRO_IMAGE_PREVIEW ''AAAA'' ''a studio'' None []) = Inr ''data:image/png;base64,QUJD''"
    using generateImage_first_payload [where cfg = example_config and env = example_env
        and key = "''sk-test''" and net = "answering (?cs @ [?c])" and trace = "[]"
        and p = GEMINI_3_PRO_IMAGE_PREVIEW and img = "''AAAA''" and pr = "''a studio''"
        and opts = None and resp = ?resp and d = ?d and pre = ?cs and c = ?c and post = "[]"
        and u = "''data:image/png;base64,QUJD''", OF example_key n o jr ch pre] a
    by blast
  then show ?thesis using s s2 a by simp
qed
section \<open>Properties of the service factory\<close>

lemma all_providers_complete: "p \<in> set all_providers"
  by (cases p) (simp_all add: all_providers_def)

lemma factory_inv_iff: "factory_inv F \<longleftrightarrow> (\<forall>p. cached_ok F p)"
  using all_providers_complete by (auto simp: factory_inv_def list_all_iff)

lemma factory_inv_initial: "factory_inv initial_factory"
  by (simp add: factory_inv_iff cached_ok_def initial_factory_def)

lemma factory_inv_registerConfig: "factory_inv (registerConfig cfg F)"
  by (simp add: factory_inv_iff cached_ok_def registerConfig_def)

lemma getService_cached:
  "instances F p = Some r \<Longrightarrow> getService p F = (r, F)"
  by (simp add: getService_def)

lemma getService_fresh:
  "instances F p = None \<Longrightarrow>
   getService p F =
     (length (objects F),
      F\<lparr>objects := objects F @ [\<lparr>config = factory_config F, provider = p\<rparr>],
        instances := (instances F)(p \<mapsto> length (objects F))\<rparr>)"
  by (simp add: getService_def Let_def)

lemma factory_inv_getService:
  assumes "factory_inv F"
  shows "factory_inv (snd (getService p F))"
proof (cases "instances F p")
  case None
  have "cached_ok (snd (getService p F)) q" for q
    using assms [unfolded factory_inv_iff, rule_format, of q]
    by (auto simp: getService_fresh [OF None] cached_ok_def nth_append split: option.splits)
  then show ?thesis by (simp add: factory_inv_iff)
next
  case (Some r)
  then show ?thesis using assms by (simp add: getService_cached)
qed

lemma getService_instances:
  "instances (snd (getService p F)) p = Some (fst (getService p F))"
  by (cases "instances F p") (simp_all add: getService_cached getService_fresh)

lemma getService_keeps:
  "instances F q = Some r \<Longrightarrow> instances (snd (getService p F)) q = Some r"
  by (cases "instances F p") (auto simp: getService_cached getService_fresh)

lemma getService_config: "factory_config (snd (getService p F)) = factory_config F"
  by (cases "instances F p") (simp_all add: getService_cached getService_fresh)

lemma getService_objects_grow: "length (objects F) \<le> length (objects (snd (getService p F)))"
  by (cases "instances F p") (simp_all add: getService_cached getService_fresh)

lemma getServices_keeps:
  "instances F q = Some r \<Longrightarrow> instances (getServices ps F) q = Some r"
  by (induction ps arbitrary: F) (simp_all add: getService_keeps)

lemma getServices_config: "factory_config (getServices ps F) = factory_config F"
  by (induction ps arbitrary: F) (simp_all add: getService_config)

lemma getServices_objects_grow: "length (objects F) \<le> length (objects (getServices ps F))"
proof (induction ps arbitrary: F)
  case Nil
  then show ?case by simp
next
  case (Cons p ps)
  have "length (objects F) \<le> length (objects (snd (getService p F)))"
    by (rule getService_objects_grow)
  also have "\<dots> \<le> length (objects (getServices ps (snd (getService p F))))"
    by (rule Cons.IH)
  finally show ?case by simp
qed

lemma getService_other_None:
  "q \<noteq> p \<Longrightarrow> instances F q = None \<Longrightarrow> instances (snd (getService p F)) q = None"
  by (cases "instances F p") (simp_all add: getService_cached getService_fresh)

lemma getServices_not_cached:
  "q \<notin> set ps \<Longrightarrow> instances F q = None \<Longrightarrow> instances (getServices ps F) q = None"
  by (induction ps arbitrary: F) (auto simp: getService_other_None)

text \<open>
  Claim C10. The invariant, that every cached adapter holds the registered
  configuration, holds at the start and is kept by \<open>registerConfig\<close> and by
  \<open>getService\<close>. A second \<open>getService\<close> for a provider, after any \<open>getService\<close> calls
  and no \<open>registerConfig\<close>, returns the same reference and changes nothing.
  \<open>registerConfig\<close> stores the new configuration and empties the cache; the next
  \<open>getService\<close> for a provider then constructs an object that was not in the store
  before, with the new configuration.
\<close>

theorem factory_cache:
  "factory_inv initial_factory
   \<and> factory_inv (registerConfig cfg F)
   \<and> (factory_inv F \<longrightarrow> factory_inv (snd (getService p F)))
   \<and> getService p (getServices ps (snd (getService p F)))
       = (fst (getService p F), getServices ps (snd (getService p F)))
   \<and> factory_config (registerConfig cfg F) = cfg
   \<and> instances (registerConfig cfg F) = Map.empty
   \<and> (p \<notin> set ps \<longrightarrow>
        fst (getService p (getServices ps (registerConfig cfg F)))
          = length (objects (getServices ps (registerConfig cfg F)))
        \<and> length (objects F) \<le> fst (getService p (getServices ps (registerConfig cfg F)))
        \<and> objects (snd (getService p (getServices ps (registerConfig cfg F))))
            ! fst (getService p (getServices ps (registerConfig cfg F)))
          = \<lparr>config = cfg, provider = p\<rparr>)"
proof (intro conjI impI)
  show "factory_inv initial_factory" by (rule factory_inv_initial)
  show "factory_inv (registerConfig cfg F)" by (rule factory_inv_registerConfig)
  show "factory_inv (snd (getService p F))" if "factory_inv F"
    using that by (rule factory_inv_getService)
  show "getService p (getServices ps (snd (getService p F)))
       = (fst (getService p F), getServices ps (snd (getService p F)))"
    by (intro getService_cached getServices_keeps getService_instances)
  show "factory_config (registerConfig cfg F) = cfg" by (simp add: registerConfig_def)
  show "instances (registerConfig cfg F) = Map.empty" by (simp add: registerConfig_def)
next
  let ?G = "getServices ps (registerConfig cfg F)"
  assume "p \<notin> set ps"
  then have none: "instances ?G p = None"
    by (intro getServices_not_cached) (simp_all add: registerConfig_def)
  have c: "factory_config ?G = cfg"
    by (simp add: getServices_config registerConfig_def)
  have "length (objects F) = length (objects (registerConfig cfg F))"
    by (simp add: registerConfig_def)
  also have "\<dots> \<le> length (objects ?G)" by (rule getServices_objects_grow)
  finally have le: "length (objects F) \<le> length (objects ?G)" .
  show "fst (getService p ?G) = length (objects ?G)"
    by (simp add: getService_fresh [OF none])
  show "length (objects F) \<le> fst (getService p ?G)"
    using le by (simp add: getService_fresh [OF none])
  show "objects (snd (getService p ?G)) ! fst (getService p ?G) = \<lparr>config = cfg, provider = p\<rparr>"
    by (simp add: getService_fresh [OF none] c)
qed

text \<open>Claim C10 at a factory that has cached one adapter.\<close>

theorem factory_cache_witness:
  "factory_inv initial_factory
   \<and> factory_inv (snd (getService GEMINI_3_PRO_PREVIEW initial_factory))
   \<and> instances (snd (getService GEMINI_3_PRO_PREVIEW initial_factory)) GEMINI_3_PRO_PREVIEW = Some 0
   \<and> GEMINI_3_PRO_PREVIEW \<notin> set [GEMINI_3_PRO_IMAGE_PREVIEW]
   \<and> fst (getService GEMINI_3_PRO_PREVIEW
        (getServices [GEMINI_3_PRO_IMAGE_PREVIEW]
           (registerConfig example_config (snd (getService GEMINI_3_PRO_PREVIEW initial_factory))))) = 2"
proof -
  let ?F = "snd (getService GEMINI_3_PRO_PREVIEW initial_factory)"
  note t0 = factory_cache [of example_config initial_factory GEMINI_3_PRO_PREVIEW "[]"]
  note t1 = factory_cache [of example_config ?F GEMINI_3_PRO_PREVIEW "[GEMINI_3_PRO_IMAGE_PREVIEW]"]
  have i: "factory_inv initial_factory" and f: "factory_inv ?F"
    using t0 by blast+
  have n: "GEMINI_3_PRO_PREVIEW \<notin> set [GEMINI_3_PRO_IMAGE_PREVIEW]" by simp
  have s: "instances ?F GEMINI_3_PRO_PREVIEW = Some 0"
    by (simp add: getService_def initial_factory_def)
  have "fst (getService GEMINI_3_PRO_PREVIEW
        (getServices [GEMINI_3_PRO_IMAGE_PREVIEW] (registerConfig example_config ?F)))
      = length (objects (getServices [GEMINI_3_PRO_IMAGE_PREVIEW] (registerConfig example_config ?F)))"
    using t1 n by blast
  also have "\<dots> = 2"
    by (simp add: getService_def initial_factory_def registerConfig_def)
  finally show ?thesis using i f s n by blast
qed

section \<open>Properties of the orchestration loop\<close>

subsection \<open>The recording outside world\<close>

lemma recording_simps:
  "removeWhiteBackground (recording W) f wl =
     (fst (removeWhiteBackground W f (fst wl)),
      (snd (removeWhiteBackground W f (fst wl)),
       snd wl @ [RemoveBgCall f (fst (removeWhiteBackground W f (fst wl)))]))"
  "expandPrompt_op (recording W) b p c wl =
     (fst (expandPrompt_op W b p c (fst wl)),
      (snd (expandPrompt_op W b p c (fst wl)),
       snd wl @ [ExpandCall b p c (fst (expandPrompt_op W b p c (fst wl)))]))"
  "generateProductScene_op (recording W) i e p opts wl =
     (fst (generateProductScene_op W i e p opts (fst wl)),
      (snd (generateProductScene_op W i e p opts (fst wl)),
       snd wl @ [GenerateCall i e p opts (fst (generateProductScene_op W i e p opts (fst wl)))]))"
  "Date_now (recording W) wl =
     (fst (Date_now W (fst wl)), (snd (Date_now W (fst wl)), snd wl @ [NowCall (fst (Date_now W (fst wl)))]))"
  "Math_random (recording W) wl =
     (fst (Math_random W (fst wl)),
      (snd (Math_random W (fst wl)), snd wl @ [RandomCall (fst (Math_random W (fst wl)))]))"
  by (simp_all add: recording_def case_prod_beta Let_def)

lemma new_image_recording:
  assumes "new_image (recording W) n e u wl = (g, wl')"
  shows "\<exists>t1 x t2.
           g = \<lparr>image_id = show_nat t1 @ take 6 (drop 2 x), url = u, prompt = e, vibe = n,
                timestamp = t2\<rparr>
         \<and> snd wl' = snd wl @ [NowCall t1, RandomCall x, NowCall t2]"
  using assms by (auto simp: new_image_def recording_simps Let_def case_prod_beta)

lemma new_image_forget:
  "fst (new_image (recording W) n e u wl) = fst (new_image W n e u (fst wl))
   \<and> fst (snd (new_image (recording W) n e u wl)) = snd (new_image W n e u (fst wl))"
  by (simp add: new_image_def recording_simps Let_def case_prod_beta)

lemma process_preset_forget:
  "fst (process_preset (recording W) I img tot k p s) = fst (process_preset W I img tot k p (forget s))
   \<and> forget (snd (process_preset (recording W) I img tot k p s))
       = snd (process_preset W I img tot k p (forget s))"
  by (simp add: process_preset_def forget_def recording_simps new_image_forget Let_def
      case_prod_beta split: sum.splits)

lemma run_presets_forget:
  "fst (run_presets (recording W) I img tot ids k s) = fst (run_presets W I img tot ids k (forget s))
   \<and> forget (snd (run_presets (recording W) I img tot ids k s))
       = snd (run_presets W I img tot ids k (forget s))"
proof (induction ids arbitrary: k s)
  case Nil
  show ?case by simp
next
  case (Cons i ids)
  show ?case
  proof (cases "find (\<lambda>p. preset_id p = i) (displayPresets I)")
    case None
    then show ?thesis using Cons.IH [of k s] by simp
  next
    case (Some p)
    obtain r1 s1 where a: "process_preset (recording W) I img tot (k + 1) p s = (r1, s1)"
      by (cases "process_preset (recording W) I img tot (k + 1) p s")
    then have b: "process_preset W I img tot (k + 1) p (forget s) = (r1, forget s1)"
      using process_preset_forget [of W I img tot "k + 1" p s]
      by (cases "process_preset W I img tot (k + 1) p (forget s)") simp
    show ?thesis
    proof (cases r1)
      case None
      have "run_presets (recording W) I img tot (i # ids) k s
          = run_presets (recording W) I img tot ids (k + 1) s1"
        using Some a None by simp
      moreover have "run_presets W I img tot (i # ids) k (forget s)
          = run_presets W I img tot ids (k + 1) (forget s1)"
        using Some b None by simp
      ultimately show ?thesis using Cons.IH [of "k + 1" s1] by simp
    next
      case (Some e)
      have "run_presets (recording W) I img tot (i # ids) k s = (Some e, s1)"
        using \<open>find (\<lambda>p. preset_id p = i) (displayPresets I) = Some p\<close> a Some by simp
      moreover have "run_presets W I img tot (i # ids) k (forget s) = (Some e, forget s1)"
        using \<open>find (\<lambda>p. preset_id p = i) (displayPresets I) = Some p\<close> b Some by simp
      ultimately show ?thesis by simp
    qed
  qed
qed

lemma prepare_image_forget:
  "fst (prepare_image (recording W) I f pv s) = fst (prepare_image W I f pv (forget s))
   \<and> forget (snd (prepare_image (recording W) I f pv s))
       = snd (prepare_image W I f pv (forget s))"
  by (simp add: prepare_image_def forget_def recording_simps Let_def case_prod_beta)

lemma try_batch_forget:
  "fst (try_batch (recording W) I f pv s) = fst (try_batch W I f pv (forget s))
   \<and> forget (snd (try_batch (recording W) I f pv s)) = snd (try_batch W I f pv (forget s))"
proof -
  obtain r0 s0 where a: "prepare_image (recording W) I f pv s = (r0, s0)"
    by (cases "prepare_image (recording W) I f pv s")
  then have b: "prepare_image W I f pv (forget s) = (r0, forget s0)"
    using prepare_image_forget [of W I f pv s]
    by (cases "prepare_image W I f pv (forget s)") simp
  show ?thesis
  proof (cases r0)
    case (Inl e)
    then show ?thesis using a b by (simp add: try_batch_def)
  next
    case (Inr img)
    then show ?thesis
      using a b run_presets_forget [of W I img "length (selectedPresetIds I)" "selectedPresetIds I" 0 s0]
      by (simp add: try_batch_def)
  qed
qed

text \<open>
  The recording changes nothing: without the list of calls, a run in the recording
  outside world is the run in the outside world itself.
\<close>

theorem recording_transparent:
  "forget (handleGenerate (recording W) I s) = handleGenerate W I (forget s)"
proof (cases "nothing_to_generate I")
  case True
  then show ?thesis by (simp add: handleGenerate_def)
next
  case False
  let ?f = "the (selectedFile I)" and ?pv = "the (previewUrl I)"
  obtain r s' where a: "try_batch (recording W) I ?f ?pv s = (r, s')"
    by (cases "try_batch (recording W) I ?f ?pv s")
  then have b: "try_batch W I ?f ?pv (forget s) = (r, forget s')"
    using try_batch_forget [of W I ?f ?pv s]
    by (cases "try_batch W I ?f ?pv (forget s)") simp
  show ?thesis
    using False a b by (cases r) (simp_all add: handleGenerate_def forget_def)
qed

subsection \<open>Lists of calls\<close>

lemma no_failure_simps [simp]:
  "no_failure [] = True"
  "no_failure (c # cs) = (\<not> failed c \<and> no_failure cs)"
  by (simp_all add: no_failure_def)

lemma no_failure_append [simp]: "no_failure (cs @ ds) = (no_failure cs \<and> no_failure ds)"
  by (simp add: no_failure_def)

lemma fails_last_prepend: "no_failure cs \<Longrightarrow> fails_last ds \<Longrightarrow> fails_last (cs @ ds)"
  by (auto simp: fails_last_def butlast_append)

lemma fails_last_not_ok: "fails_last cs \<Longrightarrow> \<not> no_failure cs"
  by (auto simp: fails_last_def no_failure_def list_all_iff)

lemma no_failure_iteration: "no_failure (iteration_calls I img p oc)"
  by (simp add: iteration_calls_def)

lemma no_failure_iterations: "no_failure (concat (map2 (iteration_calls I img) ps os))"
proof (induction ps arbitrary: os)
  case Nil
  show ?case by simp
next
  case (Cons p ps)
  show ?case by (cases os) (simp_all add: no_failure_iteration Cons.IH)
qed

lemma no_failure_preparation: "no_failure (preparation I img)"
  by (simp add: preparation_def)

lemma fails_last_tail:
  "fails_last (expand_failure I p e)"
  "fails_last (image_failure I img p x e)"
  by (simp_all add: fails_last_def expand_failure_def image_failure_def)

lemma image_prompts_append: "image_prompts (cs @ ds) = image_prompts cs @ image_prompts ds"
  by (induction cs rule: image_prompts.induct) simp_all

lemma image_prompts_iterations:
  "length os = length ps \<Longrightarrow>
   image_prompts (concat (map2 (iteration_calls I img) ps os)) = map expanded os"
proof (induction ps arbitrary: os)
  case Nil
  then show ?case by simp
next
  case (Cons p ps)
  then obtain oc os' where os: "os = oc # os'" "length os' = length ps"
    by (cases os) simp_all
  have "image_prompts (iteration_calls I img p oc) = [expanded oc]"
    by (simp add: iteration_calls_def)
  then show ?case using os Cons.IH [of os'] by (simp add: image_prompts_append)
qed

lemma image_prompts_preparation: "image_prompts (preparation I img) = []"
  by (simp add: preparation_def)

lemma records_fields:
  "length os = length ps \<Longrightarrow>
   map vibe (map2 record_of ps os) = map name ps
   \<and> map prompt (map2 record_of ps os) = map expanded os"
proof (induction ps arbitrary: os)
  case Nil
  then show ?case by simp
next
  case (Cons p ps)
  then obtain oc os' where os: "os = oc # os'" "length os' = length ps"
    by (cases os) simp_all
  then show ?case using Cons.IH [of os'] by (simp add: record_of_def)
qed

subsection \<open>What a run does\<close>

lemma added_refl: "added s s [] []"
  by (simp add: added_def)

lemma added_trans:
  "added s s1 cs1 new1 \<Longrightarrow> added s1 s2 cs2 new2 \<Longrightarrow> added s s2 (cs1 @ cs2) (new2 @ new1)"
  by (simp add: added_def)

lemma process_preset_cases:
  assumes "process_preset (recording W) I img tot k p s = (r, s')"
  shows "(\<exists>e. r = Some e \<and> added s s' (expand_failure I p e) [])
       \<or> (\<exists>e x. r = Some e \<and> added s s' (image_failure I img p x e) [])
       \<or> (\<exists>oc. r = None \<and> added s s' (iteration_calls I img p oc) [record_of p oc])"
proof -
  let ?R = "recording W"
  let ?s1 = "s\<lparr>processingState :=
                 \<lparr>step = EXPANDING_PROMPT, message = designing_message k tot (name p)\<rparr>\<rparr>"
  obtain r1 w1 where e1: "expandPrompt_op ?R (description p) GEMINI_3_PRO_PREVIEW (customContext I) (world s) = (r1, w1)"
    by (cases "expandPrompt_op ?R (description p) GEMINI_3_PRO_PREVIEW (customContext I) (world s)")
  then have l1: "snd w1 = snd (world s)
      @ [ExpandCall (description p) GEMINI_3_PRO_PREVIEW (customContext I) r1]"
    by (auto simp: recording_simps)
  let ?s2 = "?s1\<lparr>world := w1\<rparr>"
  show ?thesis
  proof (cases r1)
    case (Inl e)
    then have "r = Some e" and "s' = ?s2"
      using assms e1 by (simp_all add: process_preset_def Let_def)
    moreover have "added s ?s2 (expand_failure I p e) []"
      using l1 Inl by (simp add: added_def expand_failure_def)
    ultimately show ?thesis by blast
  next
    case (Inr ex)
    let ?s3 = "?s2\<lparr>processingState :=
                 \<lparr>step = GENERATING_IMAGE, message = rendering_message k tot (name p)\<rparr>\<rparr>"
    let ?opts = "Some \<lparr>opt_quality = Some (quality p)\<rparr>"
    obtain r2 w2 where e2: "generateProductScene_op ?R img ex GEMINI_3_PRO_IMAGE_PREVIEW ?opts w1 = (r2, w2)"
      by (cases "generateProductScene_op ?R img ex GEMINI_3_PRO_IMAGE_PREVIEW ?opts w1")
    then have l2: "snd w2 = snd w1 @ [GenerateCall img ex GEMINI_3_PRO_IMAGE_PREVIEW ?opts r2]"
      by (auto simp: recording_simps)
    let ?s4 = "?s3\<lparr>world := w2\<rparr>"
    show ?thesis
    proof (cases r2)
      case (Inl e)
      then have "r = Some e" and "s' = ?s4"
        using assms e1 e2 Inr by (simp_all add: process_preset_def Let_def)
      moreover have "added s ?s4 (image_failure I img p ex e) []"
        using l1 l2 Inr Inl by (simp add: added_def image_failure_def)
      ultimately show ?thesis by blast
    next
      case u: (Inr u)
      obtain g w3 where ni: "new_image ?R (name p) ex u w2 = (g, w3)"
        by (cases "new_image ?R (name p) ex u w2")
      from new_image_recording [OF ni] obtain t1 x t2 where
        g: "g = \<lparr>image_id = show_nat t1 @ take 6 (drop 2 x), url = u, prompt = ex,
                 vibe = name p, timestamp = t2\<rparr>"
        and l3: "snd w3 = snd w2 @ [NowCall t1, RandomCall x, NowCall t2]"
        by blast
      let ?oc = "\<lparr>expanded = ex, image_url = u, id_clock = t1, id_random = x, stamp = t2\<rparr>"
      let ?s5 = "?s4\<lparr>world := w3, generatedImages := g # generatedImages ?s4\<rparr>"
      have "r = None" and "s' = ?s5"
        using assms e1 e2 Inr u ni by (simp_all add: process_preset_def Let_def)
      moreover have "added s ?s5 (iteration_calls I img p ?oc) [record_of p ?oc]"
        using l1 l2 l3 Inr u g by (simp add: added_def iteration_calls_def record_of_def)
      ultimately show ?thesis by blast
    qed
  qed
qed

lemma run_presets_summary:
  assumes "run_presets (recording W) I img tot ids k s = (r, s')"
  shows "(r = None \<longrightarrow>
            (\<exists>os. length os = length (resolved (displayPresets I) ids)
               \<and> added s s' (concat (map2 (iteration_calls I img) (resolved (displayPresets I) ids) os))
                    (rev (map2 record_of (resolved (displayPresets I) ids) os))))
       \<and> (r \<noteq> None \<longrightarrow>
            (\<exists>before p rest os tail.
                 resolved (displayPresets I) ids = before @ p # rest
               \<and> length os = length before
               \<and> ((\<exists>e. tail = expand_failure I p e) \<or> (\<exists>x e. tail = image_failure I img p x e))
               \<and> added s s' (concat (map2 (iteration_calls I img) before os) @ tail)
                    (rev (map2 record_of before os))))"
  using assms
proof (induction ids arbitrary: k s)
  case Nil
  then have "r = None" "s' = s" by simp_all
  then show ?case using added_refl [of s] by simp
next
  case (Cons i ids)
  let ?ps = "resolved (displayPresets I) ids"
  show ?case
  proof (cases "find (\<lambda>p. preset_id p = i) (displayPresets I)")
    case None
    then have "run_presets (recording W) I img tot ids k s = (r, s')" using Cons.prems by simp
    from Cons.IH [OF this] show ?thesis using None by simp
  next
    case (Some p)
    then have ps: "resolved (displayPresets I) (i # ids) = p # ?ps" by simp
    obtain r1 s1 where pp: "process_preset (recording W) I img tot (k + 1) p s = (r1, s1)"
      by (cases "process_preset (recording W) I img tot (k + 1) p s")
    from process_preset_cases [OF pp]
    consider (f1) e where "r1 = Some e" "added s s1 (expand_failure I p e) []"
      | (f2) e x where "r1 = Some e" "added s s1 (image_failure I img p x e) []"
      | (ok) oc where "r1 = None" "added s s1 (iteration_calls I img p oc) [record_of p oc]"
      by blast
    then show ?thesis
    proof cases
      case f1
      then have "r = Some e" "s' = s1" using Cons.prems Some pp by simp_all
      moreover have "resolved (displayPresets I) (i # ids) = [] @ p # ?ps" using ps by simp
      moreover have "length ([] :: Outcome list) = length ([] :: ScenarioPreset list)" by simp
      moreover have "added s s1 (concat (map2 (iteration_calls I img) [] []) @ expand_failure I p e)
          (rev (map2 record_of [] []))"
        using f1 by simp
      ultimately show ?thesis by blast
    next
      case f2
      then have "r = Some e" "s' = s1" using Cons.prems Some pp by simp_all
      moreover have "resolved (displayPresets I) (i # ids) = [] @ p # ?ps" using ps by simp
      moreover have "length ([] :: Outcome list) = length ([] :: ScenarioPreset list)" by simp
      moreover have "added s s1 (concat (map2 (iteration_calls I img) [] []) @ image_failure I img p x e)
          (rev (map2 record_of [] []))"
        using f2 by simp
      ultimately show ?thesis by blast
    next
      case ok
      then have run: "run_presets (recording W) I img tot ids (k + 1) s1 = (r, s')"
        using Cons.prems Some pp by simp
      show ?thesis
      proof (cases r)
        case None
        with Cons.IH [OF run] obtain os where
          l: "length os = length ?ps"
          and a: "added s1 s' (concat (map2 (iteration_calls I img) ?ps os))
                    (rev (map2 record_of ?ps os))"
          by blast
        have "length (oc # os) = length (p # ?ps)" using l by simp
        moreover have "added s s' (concat (map2 (iteration_calls I img) (p # ?ps) (oc # os)))
            (rev (map2 record_of (p # ?ps) (oc # os)))"
          using added_trans [OF ok(2) a] by simp
        ultimately show ?thesis using None ps by metis
      next
        case (Some e')
        with Cons.IH [OF run] obtain before q rest os tail where
          d: "?ps = before @ q # rest"
          and l: "length os = length before"
          and t: "(\<exists>e. tail = expand_failure I q e) \<or> (\<exists>x e. tail = image_failure I img q x e)"
          and a: "added s1 s' (concat (map2 (iteration_calls I img) before os) @ tail)
                    (rev (map2 record_of before os))"
          by blast
        have "resolved (displayPresets I) (i # ids) = (p # before) @ q # rest" using ps d by simp
        moreover have "length (oc # os) = length (p # before)" using l by simp
        moreover have "added s s' (concat (map2 (iteration_calls I img) (p # before) (oc # os)) @ tail)
            (rev (map2 record_of (p # before) (oc # os)))"
          using added_trans [OF ok(2) a] by simp
        ultimately show ?thesis using Some t by blast
      qed
    qed
  qed
qed

lemma prepare_image_cases:
  assumes "prepare_image (recording W) I (the (selectedFile I)) (the (previewUrl I)) s = (r, s1)"
  shows "(\<exists>e. r = Inl e \<and> removeBg I
            \<and> added s s1 [RemoveBgCall (the (selectedFile I)) (Inl e)] [])
       \<or> (\<exists>img. r = Inr img \<and> image_used I img \<and> added s s1 (preparation I img) [])"
proof (cases "removeBg I")
  case False
  then have "r = Inr (the (previewUrl I))" "s1 = s" using assms by (simp_all add: prepare_image_def)
  then show ?thesis using False added_refl [of s] by (simp add: image_used_def preparation_def)
next
  case True
  let ?f = "the (selectedFile I)"
  let ?s0 = "s\<lparr>processingState := REMOVING_BACKGROUND\<rparr>"
  obtain r0 w0 where rb: "removeWhiteBackground (recording W) ?f (world s) = (r0, w0)"
    by (cases "removeWhiteBackground (recording W) ?f (world s)")
  then have l: "snd w0 = snd (world s) @ [RemoveBgCall ?f r0]"
    by (auto simp: recording_simps)
  have eq: "r = r0" "s1 = ?s0\<lparr>world := w0\<rparr>"
    using assms True rb by (auto simp: prepare_image_def Let_def)
  have a: "added s s1 [RemoveBgCall ?f r0] []" using eq l by (simp add: added_def)
  show ?thesis
  proof (cases r0)
    case (Inl e)
    then show ?thesis using eq a True by simp
  next
    case (Inr img)
    then show ?thesis using eq a True by (simp add: image_used_def preparation_def)
  qed
qed

lemma handleGenerate_summary:
  assumes "\<not> nothing_to_generate I"
  shows "(\<exists>img os.
             image_used I img
           \<and> length os = length (selectedPresets I)
           \<and> calls_of_run W I s
               = preparation I img @ concat (map2 (iteration_calls I img) (selectedPresets I) os)
           \<and> generatedImages (handleGenerate (recording W) I s)
               = rev (map2 record_of (selectedPresets I) os) @ generatedImages s
           \<and> processingState (handleGenerate (recording W) I s) = ALL_GENERATED
           \<and> pendingTimers (handleGenerate (recording W) I s) = pendingTimers s + 1)
       \<or> (processingState (handleGenerate (recording W) I s) = SOMETHING_WENT_WRONG
           \<and> pendingTimers (handleGenerate (recording W) I s) = pendingTimers s
           \<and> ((\<exists>e. removeBg I
                  \<and> calls_of_run W I s = [RemoveBgCall (the (selectedFile I)) (Inl e)]
                  \<and> generatedImages (handleGenerate (recording W) I s) = generatedImages s)
              \<or> (\<exists>img before p rest os tail.
                     image_used I img
                   \<and> selectedPresets I = before @ p # rest
                   \<and> length os = length before
                   \<and> ((\<exists>e. tail = expand_failure I p e) \<or> (\<exists>x e. tail = image_failure I img p x e))
                   \<and> calls_of_run W I s
                       = preparation I img @ concat (map2 (iteration_calls I img) before os) @ tail
                   \<and> generatedImages (handleGenerate (recording W) I s)
                       = rev (map2 record_of before os) @ generatedImages s)))"
proof -
  let ?f = "the (selectedFile I)" and ?pv = "the (previewUrl I)"
  let ?h = "handleGenerate (recording W) I s"
  obtain r0 s0 where p: "prepare_image (recording W) I ?f ?pv s = (r0, s0)"
    by (cases "prepare_image (recording W) I ?f ?pv s")
  from prepare_image_cases [OF p]
  consider (bad) e where "r0 = Inl e" "removeBg I" "added s s0 [RemoveBgCall ?f (Inl e)] []"
    | (good) img where "r0 = Inr img" "image_used I img" "added s s0 (preparation I img) []"
    by blast
  then show ?thesis
  proof cases
    case bad
    then have h: "?h = s0\<lparr>processingState := SOMETHING_WENT_WRONG\<rparr>"
      using assms p by (simp add: handleGenerate_def try_batch_def)
    have "calls_of_run W I s = [RemoveBgCall ?f (Inl e)]"
      and "generatedImages ?h = generatedImages s"
      and "pendingTimers ?h = pendingTimers s"
      and "processingState ?h = SOMETHING_WENT_WRONG"
      using bad(3) by (simp_all add: calls_of_run_def h added_def)
    then show ?thesis using bad(2) by blast
  next
    case good
    obtain r s' where run: "run_presets (recording W) I img (length (selectedPresetIds I))
        (selectedPresetIds I) 0 s0 = (r, s')"
      by (cases "run_presets (recording W) I img (length (selectedPresetIds I))
        (selectedPresetIds I) 0 s0")
    then have t: "try_batch (recording W) I ?f ?pv s = (r, s')"
      using p good(1) by (simp add: try_batch_def)
    note sum = run_presets_summary [OF run, folded selectedPresets_def]
    show ?thesis
    proof (cases r)
      case None
      then have h: "?h = s'\<lparr>processingState := ALL_GENERATED, pendingTimers := pendingTimers s' + 1\<rparr>"
        using assms t by (simp add: handleGenerate_def)
      from sum None obtain os where
        l: "length os = length (selectedPresets I)"
        and a: "added s0 s' (concat (map2 (iteration_calls I img) (selectedPresets I) os))
                  (rev (map2 record_of (selectedPresets I) os))"
        by blast
      from added_trans [OF good(3) a]
      have "calls_of_run W I s
            = preparation I img @ concat (map2 (iteration_calls I img) (selectedPresets I) os)"
        and "generatedImages ?h = rev (map2 record_of (selectedPresets I) os) @ generatedImages s"
        and "processingState ?h = ALL_GENERATED"
        and "pendingTimers ?h = pendingTimers s + 1"
        by (simp_all add: calls_of_run_def h added_def)
      then show ?thesis using l good(2) by blast
    next
      case (Some e)
      then have h: "?h = s'\<lparr>processingState := SOMETHING_WENT_WRONG\<rparr>"
        using assms t by (simp add: handleGenerate_def)
      from sum Some obtain before q rest os tail where
        d: "selectedPresets I = before @ q # rest"
        and l: "length os = length before"
        and tl: "(\<exists>e. tail = expand_failure I q e) \<or> (\<exists>x e. tail = image_failure I img q x e)"
        and a: "added s0 s' (concat (map2 (iteration_calls I img) before os) @ tail)
                  (rev (map2 record_of before os))"
        by blast
      from added_trans [OF good(3) a]
      have "calls_of_run W I s
            = preparation I img @ concat (map2 (iteration_calls I img) before os) @ tail"
        and "generatedImages ?h = rev (map2 record_of before os) @ generatedImages s"
        and "processingState ?h = SOMETHING_WENT_WRONG"
        and "pendingTimers ?h = pendingTimers s"
        by (simp_all add: calls_of_run_def h added_def)
      then show ?thesis using d l tl good(2) by blast
    qed
  qed
qed

subsection \<open>A batch that reaches its end\<close>

text \<open>
  Claim C1. A batch run in which no call throws ends in \<open>COMPLETED\<close>, and for the presets
  \<open>[A, B, C]\<close> the selection resolves to, in this order, there is one outcome for
  each such that: the calls the outside world received during the run are the calls of
  step 1 followed, preset by preset in the order \<open>A, B, C\<close>, by the expansion of the
  description of the preset, the image call, which is given the image of step 1 and
  the prompt the expansion returned, and the three readings for the id and the
  timestamp; the list of records is the older list with, in front of it, the records
  of the presets in the order \<open>[C, B, A]\<close>, the record of a preset made of the name of
  the preset as \<open>vibe\<close>, the prompt the image call was given as \<open>prompt\<close>, the URL that
  call returned as \<open>url\<close>, and the readings. So the \<open>vibe\<close> fields of the new records
  are the names of the presets, the latest first, and their \<open>prompt\<close> fields are the
  prompts that the image calls of the run received, the latest first.
\<close>

theorem batch_order:
  assumes "\<not> nothing_to_generate I"
    and "no_failure (calls_of_run W I s)"
  shows "processingState (handleGenerate (recording W) I s) = ALL_GENERATED
     \<and> (\<exists>img os new.
            image_used I img
          \<and> length os = length (selectedPresets I)
          \<and> calls_of_run W I s
              = preparation I img @ concat (map2 (iteration_calls I img) (selectedPresets I) os)
          \<and> new = rev (map2 record_of (selectedPresets I) os)
          \<and> generatedImages (handleGenerate (recording W) I s) = new @ generatedImages s
          \<and> map vibe new = rev (map name (selectedPresets I))
          \<and> map prompt new = rev (image_prompts (calls_of_run W I s)))"
proof -
  let ?h = "handleGenerate (recording W) I s"
  from handleGenerate_summary [OF assms(1), of W s]
  consider (ok) img os where "image_used I img" "length os = length (selectedPresets I)"
      "calls_of_run W I s
         = preparation I img @ concat (map2 (iteration_calls I img) (selectedPresets I) os)"
      "generatedImages ?h = rev (map2 record_of (selectedPresets I) os) @ generatedImages s"
      "processingState ?h = ALL_GENERATED"
    | (f0) e where "calls_of_run W I s = [RemoveBgCall (the (selectedFile I)) (Inl e)]"
    | (f1) img before os tail p where
      "(\<exists>e. tail = expand_failure I p e) \<or> (\<exists>x e. tail = image_failure I img p x e)"
      "calls_of_run W I s
         = preparation I img @ concat (map2 (iteration_calls I img) before os) @ tail"
    by blast
  then show ?thesis
  proof cases
    case ok
    have "map vibe (rev (map2 record_of (selectedPresets I) os)) = rev (map name (selectedPresets I))"
      using records_fields [OF ok(2)] by (simp add: rev_map [symmetric])
    moreover have "map prompt (rev (map2 record_of (selectedPresets I) os))
        = rev (image_prompts (calls_of_run W I s))"
      using records_fields [OF ok(2)] image_prompts_iterations [OF ok(2), of I img]
      by (simp add: ok(3) image_prompts_append image_prompts_preparation rev_map [symmetric])
    ultimately show ?thesis using ok by blast
  next
    case f0
    then have "\<not> no_failure (calls_of_run W I s)" by simp
    then show ?thesis using assms(2) by simp
  next
    case f1
    then have "fails_last tail" using fails_last_tail by auto
    then have "\<not> no_failure tail" by (rule fails_last_not_ok)
    then have "\<not> no_failure (calls_of_run W I s)" using f1(2) by simp
    then show ?thesis using assms(2) by simp
  qed
qed

subsection \<open>A batch in which a call throws\<close>

text \<open>
  Claim C7. A batch run in which a call throws ends in \<open>ERROR\<close> with the fixed message
  and sets no timer; the call that threw is the last call the outside world received
  during the run, so no call is made for a later preset. Either the background
  removal threw, it is the only call of the run, and the list of records is the older
  list. Or the presets the selection resolves to are some presets \<open>before\<close>, the
  preset \<open>p\<close> and the rest, and there is one outcome for each preset of \<open>before\<close> such
  that: the calls received are the calls of step 1, the calls of the iterations of
  \<open>before\<close> in order, and the calls of the iteration of \<open>p\<close> up to the call that threw
  (the expansion; or the expansion and the image call); and the list of records is the
  older list with, in front of it, the whole records of the presets of \<open>before\<close>, the
  latest first.
\<close>

theorem batch_failure:
  assumes "\<not> nothing_to_generate I"
    and "\<not> no_failure (calls_of_run W I s)"
  shows "processingState (handleGenerate (recording W) I s) = SOMETHING_WENT_WRONG
     \<and> pendingTimers (handleGenerate (recording W) I s) = pendingTimers s
     \<and> fails_last (calls_of_run W I s)
     \<and> ((\<exists>e. removeBg I
            \<and> calls_of_run W I s = [RemoveBgCall (the (selectedFile I)) (Inl e)]
            \<and> generatedImages (handleGenerate (recording W) I s) = generatedImages s)
        \<or> (\<exists>img before p rest os tail.
               image_used I img
             \<and> selectedPresets I = before @ p # rest
             \<and> length os = length before
             \<and> ((\<exists>e. tail = expand_failure I p e) \<or> (\<exists>x e. tail = image_failure I img p x e))
             \<and> calls_of_run W I s
                 = preparation I img @ concat (map2 (iteration_calls I img) before os) @ tail
             \<and> generatedImages (handleGenerate (recording W) I s)
                 = rev (map2 record_of before os) @ generatedImages s))"
proof -
  let ?h = "handleGenerate (recording W) I s"
  let ?bad = "(\<exists>e. removeBg I
            \<and> calls_of_run W I s = [RemoveBgCall (the (selectedFile I)) (Inl e)]
            \<and> generatedImages ?h = generatedImages s)
        \<or> (\<exists>img before p rest os tail.
               image_used I img
             \<and> selectedPresets I = before @ p # rest
             \<and> length os = length before
             \<and> ((\<exists>e. tail = expand_failure I p e) \<or> (\<exists>x e. tail = image_failure I img p x e))
             \<and> calls_of_run W I s
                 = preparation I img @ concat (map2 (iteration_calls I img) before os) @ tail
             \<and> generatedImages ?h = rev (map2 record_of before os) @ generatedImages s)"
  from handleGenerate_summary [OF assms(1), of W s]
  consider (ok) img os where
      "calls_of_run W I s
         = preparation I img @ concat (map2 (iteration_calls I img) (selectedPresets I) os)"
    | (bad) "processingState ?h = SOMETHING_WENT_WRONG" "pendingTimers ?h = pendingTimers s" ?bad
    by blast
  then show ?thesis
  proof cases
    case ok
    then have "no_failure (calls_of_run W I s)"
      by (simp add: no_failure_preparation no_failure_iterations)
    then show ?thesis using assms(2) by simp
  next
    case bad
    have "fails_last (calls_of_run W I s)"
      using bad(3)
    proof (elim disjE exE conjE)
      fix e
      assume "calls_of_run W I s = [RemoveBgCall (the (selectedFile I)) (Inl e)]"
      then show ?thesis by (simp add: fails_last_def)
    next
      fix img before p rest os tail e
      assume c: "calls_of_run W I s
          = preparation I img @ concat (map2 (iteration_calls I img) before os) @ tail"
        and t: "tail = expand_failure I p e"
      have "fails_last tail" using t fails_last_tail by simp
      then have "fails_last ((preparation I img @ concat (map2 (iteration_calls I img) before os)) @ tail)"
        by (intro fails_last_prepend) (simp_all add: no_failure_preparation no_failure_iterations)
      then show ?thesis using c by simp
    next
      fix img before p rest os tail x e
      assume c: "calls_of_run W I s
          = preparation I img @ concat (map2 (iteration_calls I img) before os) @ tail"
        and t: "tail = image_failure I img p x e"
      have "fails_last tail" using t fails_last_tail by simp
      then have "fails_last ((preparation I img @ concat (map2 (iteration_calls I img) before os)) @ tail)"
        by (intro fails_last_prepend) (simp_all add: no_failure_preparation no_failure_iterations)
      then show ?thesis using c by simp
    qed
    then show ?thesis using bad by blast
  qed
qed

subsection \<open>Example runs\<close>

lemma example_find:
  "find (\<lambda>p. preset_id p = ''a'') (displayPresets (example_inputs ids)) = Some (example_preset ''a'' ''Studio'' ''studio'')"
  "find (\<lambda>p. preset_id p = ''b'') (displayPresets (example_inputs ids)) = Some (example_preset ''b'' ''Beach'' ''beach'')"
  "find (\<lambda>p. preset_id p = ''c'') (displayPresets (example_inputs ids)) = Some (example_preset ''c'' ''Loft'' ''loft'')"
  "find (\<lambda>p. preset_id p = ''r'') (displayPresets (example_inputs ids)) = Some (example_preset ''r'' ''Rustic'' ''rustic'')"
  "find (\<lambda>p. preset_id p = ''zz'') (displayPresets (example_inputs ids)) = None"
  by (simp_all add: displayPresets_def example_inputs_def example_preset_def)

lemma example_guard: "\<not> nothing_to_generate (example_inputs (i # ids))"
  by (simp add: nothing_to_generate_def example_inputs_def)

lemma example_inputs_fields:
  "selectedPresetIds (example_inputs ids) = ids"
  "removeBg (example_inputs ids) = True"
  "customContext (example_inputs ids) = []"
  "selectedFile (example_inputs ids) = Some (File ''product.png'')"
  "previewUrl (example_inputs ids) = Some ''data:image/png;base64,UE5H''"
  by (simp_all add: example_inputs_def)

lemma example_world_fields:
  "removeWhiteBackground example_world f w = (Inr ''data:image/png;base64,Q1VU'', w + 1)"
  "expandPrompt_op example_world b p c w = (Inr (''detailed '' @ b), w + 1)"
  "generateProductScene_op example_world i e p opts w =
     (if e = ''detailed rustic'' then Inl (Error ''Failed to generate image: Failed to fetch'')
      else Inr (''https://img.example/'' @ e), w + 1)"
  "Date_now example_world w = (1700000000000 + w, w)"
  "Math_random example_world w = (''0.123456789'', w)"
  by (simp_all add: example_world_def)

lemma example_preset_fields:
  "name (example_preset i n d) = n"
  "description (example_preset i n d) = d"
  "quality (example_preset i n d) = ''8k''"
  by (simp_all add: example_preset_def)

lemmas example_simps =
  handleGenerate_def example_guard try_batch_def prepare_image_def
  example_find process_preset_def new_image_def Let_def example_inputs_fields
  recording_simps example_world_fields example_preset_fields example_start_def

lemma example_run_abc:
  "snd (world (handleGenerate (recording example_world)
          (example_inputs [''a'', ''zz'', ''b'', ''c'']) example_start)) =
     [RemoveBgCall (File ''product.png'') (Inr ''data:image/png;base64,Q1VU''),
      ExpandCall ''studio'' GEMINI_3_PRO_PREVIEW [] (Inr ''detailed studio''),
      GenerateCall ''data:image/png;base64,Q1VU'' ''detailed studio'' GEMINI_3_PRO_IMAGE_PREVIEW
        (Some \<lparr>opt_quality = Some ''8k''\<rparr>) (Inr ''https://img.example/detailed studio''),
      NowCall 1700000000003, RandomCall ''0.123456789'', NowCall 1700000000003,
      ExpandCall ''beach'' GEMINI_3_PRO_PREVIEW [] (Inr ''detailed beach''),
      GenerateCall ''data:image/png;base64,Q1VU'' ''detailed beach'' GEMINI_3_PRO_IMAGE_PREVIEW
        (Some \<lparr>opt_quality = Some ''8k''\<rparr>) (Inr ''https://img.example/detailed beach''),
      NowCall 1700000000005, RandomCall ''0.123456789'', NowCall 1700000000005,
      ExpandCall ''loft'' GEMINI_3_PRO_PREVIEW [] (Inr ''detailed loft''),
      GenerateCall ''data:image/png;base64,Q1VU'' ''detailed loft'' GEMINI_3_PRO_IMAGE_PREVIEW
        (Some \<lparr>opt_quality = Some ''8k''\<rparr>) (Inr ''https://img.example/detailed loft''),
      NowCall 1700000000007, RandomCall ''0.123456789'', NowCall 1700000000007]"
  by (simp add: example_simps)

lemma example_run_arb:
  "snd (world (handleGenerate (recording example_world)
          (example_inputs [''a'', ''r'', ''b'']) example_start)) =
     [RemoveBgCall (File ''product.png'') (Inr ''data:image/png;base64,Q1VU''),
      ExpandCall ''studio'' GEMINI_3_PRO_PREVIEW [] (Inr ''detailed studio''),
      GenerateCall ''data:image/png;base64,Q1VU'' ''detailed studio'' GEMINI_3_PRO_IMAGE_PREVIEW
        (Some \<lparr>opt_quality = Some ''8k''\<rparr>) (Inr ''https://img.example/detailed studio''),
      NowCall 1700000000003, RandomCall ''0.123456789'', NowCall 1700000000003,
      ExpandCall ''rustic'' GEMINI_3_PRO_PREVIEW [] (Inr ''detailed rustic''),
      GenerateCall ''data:image/png;base64,Q1VU'' ''detailed rustic'' GEMINI_3_PRO_IMAGE_PREVIEW
        (Some \<lparr>opt_quality = Some ''8k''\<rparr>) (Inl (Error ''Failed to generate image: Failed to fetch''))]"
  by (simp add: example_simps)

lemma example_start_fields:
  "snd (world example_start) = []"
  "generatedImages example_start = []"
  "pendingTimers example_start = 0"
  by (simp_all add: example_start_def)

lemma example_selected:
  "selectedPresets (example_inputs [''a'', ''zz'', ''b'', ''c''])
     = [example_preset ''a'' ''Studio'' ''studio'', example_preset ''b'' ''Beach'' ''beach'',
        example_preset ''c'' ''Loft'' ''loft'']"
  by (simp add: selectedPresets_def example_inputs_fields example_find)

text \<open>
  Claim C1 at a selection of three presets and one unknown id: the prompts of the
  records are the prompts the outside world received in the image calls.
\<close>

theorem batch_order_witness:
  "\<not> nothing_to_generate (example_inputs [''a'', ''zz'', ''b'', ''c''])
   \<and> no_failure (calls_of_run example_world (example_inputs [''a'', ''zz'', ''b'', ''c'']) example_start)
   \<and> step (processingState (handleGenerate (recording example_world)
              (example_inputs [''a'', ''zz'', ''b'', ''c'']) example_start)) = COMPLETED
   \<and> map vibe (generatedImages (handleGenerate (recording example_world)
              (example_inputs [''a'', ''zz'', ''b'', ''c'']) example_start))
       = [''Loft'', ''Beach'', ''Studio'']
   \<and> map prompt (generatedImages (handleGenerate (recording example_world)
              (example_inputs [''a'', ''zz'', ''b'', ''c'']) example_start))
       = [''detailed loft'', ''detailed beach'', ''detailed studio'']
   \<and> image_prompts (calls_of_run example_world (example_inputs [''a'', ''zz'', ''b'', ''c''])
        example_start)
       = [''detailed studio'', ''detailed beach'', ''detailed loft'']"
proof -
  let ?I = "example_inputs [''a'', ''zz'', ''b'', ''c'']"
  let ?h = "handleGenerate (recording example_world) ?I example_start"
  have g: "\<not> nothing_to_generate ?I" by (rule example_guard)
  have c: "calls_of_run example_world ?I example_start = snd (world ?h)"
    by (simp add: calls_of_run_def example_start_fields)
  have n: "no_failure (calls_of_run example_world ?I example_start)"
    unfolding c by (simp add: example_run_abc)
  have p: "image_prompts (calls_of_run example_world ?I example_start)
      = [''detailed studio'', ''detailed beach'', ''detailed loft'']"
    unfolding c by (simp add: example_run_abc)
  from batch_order [OF g n] obtain new where
    "processingState ?h = ALL_GENERATED"
    "generatedImages ?h = new"
    "map vibe new = rev (map name (selectedPresets ?I))"
    "map prompt new = rev (image_prompts (calls_of_run example_world ?I example_start))"
    by (auto simp: example_start_fields)
  then have "step (processingState ?h) = COMPLETED"
    and "map vibe (generatedImages ?h) = [''Loft'', ''Beach'', ''Studio'']"
    and "map prompt (generatedImages ?h) = [''detailed loft'', ''detailed beach'', ''detailed studio'']"
    by (simp_all add: p example_selected ALL_GENERATED_def example_preset_fields)
  then show ?thesis using g n p by simp
qed

text \<open>
  Claim C7 at a selection whose second preset fails in the image call: the outside
  world receives no call for the third preset, and the record of the first is kept.
\<close>

theorem batch_failure_witness:
  "\<not> nothing_to_generate (example_inputs [''a'', ''r'', ''b''])
   \<and> \<not> no_failure (calls_of_run example_world (example_inputs [''a'', ''r'', ''b'']) example_start)
   \<and> step (processingState (handleGenerate (recording example_world)
              (example_inputs [''a'', ''r'', ''b'']) example_start)) = ERROR
   \<and> pendingTimers (handleGenerate (recording example_world)
              (example_inputs [''a'', ''r'', ''b'']) example_start) = 0
   \<and> last (calls_of_run example_world (example_inputs [''a'', ''r'', ''b'']) example_start)
       = GenerateCall ''data:image/png;base64,Q1VU'' ''detailed rustic'' GEMINI_3_PRO_IMAGE_PREVIEW
           (Some \<lparr>opt_quality = Some ''8k''\<rparr>)
           (Inl (Error ''Failed to generate image: Failed to fetch''))
   \<and> fst (world (handleGenerate (recording example_world)
              (example_inputs [''a'', ''r'', ''b'']) example_start)) = 5
   \<and> map vibe (generatedImages (handleGenerate (recording example_world)
              (example_inputs [''a'', ''r'', ''b'']) example_start)) = [''Studio'']"
proof -
  let ?I = "example_inputs [''a'', ''r'', ''b'']"
  let ?h = "handleGenerate (recording example_world) ?I example_start"
  have g: "\<not> nothing_to_generate ?I" by (rule example_guard)
  have c: "calls_of_run example_world ?I example_start = snd (world ?h)"
    by (simp add: calls_of_run_def example_start_fields)
  have n: "\<not> no_failure (calls_of_run example_world ?I example_start)"
    unfolding c by (simp add: example_run_arb)
  have l: "last (calls_of_run example_world ?I example_start)
       = GenerateCall ''data:image/png;base64,Q1VU'' ''detailed rustic'' GEMINI_3_PRO_IMAGE_PREVIEW
           (Some \<lparr>opt_quality = Some ''8k''\<rparr>)
           (Inl (Error ''Failed to generate image: Failed to fetch''))"
    unfolding c by (simp add: example_run_arb)
  have w: "fst (world ?h) = 5" by (simp add: example_simps)
  have v: "map vibe (generatedImages ?h) = [''Studio'']" by (simp add: example_simps)
  from batch_failure [OF g n]
  have "processingState ?h = SOMETHING_WENT_WRONG" and "pendingTimers ?h = pendingTimers example_start"
    by simp_all
  then have "step (processingState ?h) = ERROR" and "pendingTimers ?h = 0"
    by (simp_all add: SOMETHING_WENT_WRONG_def example_start_fields)
  then show ?thesis using g n l w v by simp
qed
section \<open>Properties of the handler between its awaits\<close>

lemma drive_step:
  "perform W t (world s) = (r, w) \<Longrightarrow>
   drive W t s = go_on W (settle W t r (s\<lparr>world := w\<rparr>))"
  by (subst drive.simps) (simp add: go_on_def split: prod.splits option.splits)

lemma go_on_loop:
  assumes "tot = length (selectedPresetIds I)"
  shows "go_on W (next_await I img rest k s) = finish (run_presets W I img tot rest k s)"
proof (induction rest arbitrary: k s)
  case Nil
  show ?case by (simp add: go_on_def finish_def)
next
  case (Cons i rest)
  show ?case
  proof (cases "find (\<lambda>p. preset_id p = i) (displayPresets I)")
    case None
    then show ?thesis using Cons.IH [of k s] by simp
  next
    case (Some p)
    let ?s1 = "s\<lparr>processingState :=
                 \<lparr>step = EXPANDING_PROMPT, message = designing_message (k + 1) tot (name p)\<rparr>\<rparr>"
    let ?t1 = "AwaitExpand I img p (k + 1) rest"
    have lhs: "go_on W (next_await I img (i # rest) k s) = drive W ?t1 ?s1"
      using Some assms by (simp add: go_on_def)
    obtain r1 w1 where e1: "expandPrompt_op W (description p) GEMINI_3_PRO_PREVIEW (customContext I) (world s) = (r1, w1)"
      by (cases "expandPrompt_op W (description p) GEMINI_3_PRO_PREVIEW (customContext I) (world s)")
    let ?s2 = "?s1\<lparr>world := w1\<rparr>"
    have d1: "drive W ?t1 ?s1 = go_on W (settle W ?t1 r1 (?s1\<lparr>world := w1\<rparr>))"
      by (rule drive_step) (simp add: e1)
    show ?thesis
    proof (cases r1)
      case (Inl e)
      have "drive W ?t1 ?s1 = ?s2\<lparr>processingState := SOMETHING_WENT_WRONG\<rparr>"
        unfolding d1 using Inl by (simp add: settle_def go_on_def)
      moreover have "process_preset W I img tot (k + 1) p s = (Some e, ?s2)"
        using Inl e1 by (simp add: process_preset_def Let_def)
      ultimately show ?thesis using lhs Some by (simp add: finish_def)
    next
      case (Inr ex)
      let ?s3 = "?s2\<lparr>processingState :=
                 \<lparr>step = GENERATING_IMAGE, message = rendering_message (k + 1) tot (name p)\<rparr>\<rparr>"
      let ?t2 = "AwaitGenerate I img p ex (k + 1) rest"
      let ?opts = "Some \<lparr>opt_quality = Some (quality p)\<rparr>"
      have d1': "drive W ?t1 ?s1 = drive W ?t2 ?s3"
        unfolding d1 using Inr assms by (simp add: settle_def go_on_def)
      obtain r2 w2 where e2: "generateProductScene_op W img ex GEMINI_3_PRO_IMAGE_PREVIEW ?opts w1 = (r2, w2)"
        by (cases "generateProductScene_op W img ex GEMINI_3_PRO_IMAGE_PREVIEW ?opts w1")
      let ?s4 = "?s3\<lparr>world := w2\<rparr>"
      have d2: "drive W ?t2 ?s3 = go_on W (settle W ?t2 r2 (?s3\<lparr>world := w2\<rparr>))"
        by (rule drive_step) (simp add: e2)
      show ?thesis
      proof (cases r2)
        case (Inl e)
        have "drive W ?t2 ?s3 = ?s4\<lparr>processingState := SOMETHING_WENT_WRONG\<rparr>"
          unfolding d2 using Inl by (simp add: settle_def go_on_def)
        moreover have "process_preset W I img tot (k + 1) p s = (Some e, ?s4)"
          using Inl Inr e1 e2 by (simp add: process_preset_def Let_def)
        ultimately show ?thesis using lhs d1' Some by (simp add: finish_def)
      next
        case u: (Inr u)
        obtain g w3 where ni: "new_image W (name p) ex u w2 = (g, w3)"
          by (cases "new_image W (name p) ex u w2")
        let ?s5 = "?s4\<lparr>world := w3, generatedImages := g # generatedImages s\<rparr>"
        have "drive W ?t2 ?s3 = go_on W (next_await I img rest (k + 1) ?s5)"
          unfolding d2 using u ni by (simp add: settle_def)
        also have "\<dots> = finish (run_presets W I img tot rest (k + 1) ?s5)"
          by (rule Cons.IH)
        finally have "drive W ?t2 ?s3 = finish (run_presets W I img tot rest (k + 1) ?s5)" .
        moreover have "process_preset W I img tot (k + 1) p s = (None, ?s5)"
          using u Inr e1 e2 ni by (simp add: process_preset_def Let_def)
        ultimately show ?thesis using lhs d1' Some by simp
      qed
    qed
  qed
qed

text \<open>
  Run with every awaited call settling at once, the handler cut at its awaits is the
  handler run from the click to its end.
\<close>

theorem handleGenerate_async_eq:
  "handleGenerate_async W I s = handleGenerate W I s"
proof (cases "nothing_to_generate I")
  case True
  then show ?thesis
    by (simp add: handleGenerate_async_def handleGenerate_def start_batch_def go_on_def)
next
  case False
  let ?f = "the (selectedFile I)" and ?pv = "the (previewUrl I)"
  have h: "handleGenerate W I s = finish (try_batch W I ?f ?pv s)"
    using False by (simp add: handleGenerate_def finish_def split: prod.splits option.splits)
  show ?thesis
  proof (cases "removeBg I")
    case nb: False
    have "handleGenerate_async W I s = go_on W (next_await I ?pv (selectedPresetIds I) 0 s)"
      using False nb by (simp add: handleGenerate_async_def start_batch_def)
    also have "\<dots> = finish (run_presets W I ?pv (length (selectedPresetIds I)) (selectedPresetIds I) 0 s)"
      by (rule go_on_loop) simp
    also have "\<dots> = finish (try_batch W I ?f ?pv s)"
      using nb by (simp add: try_batch_def prepare_image_def)
    finally show ?thesis using h by simp
  next
    case rb: True
    let ?s0 = "s\<lparr>processingState := REMOVING_BACKGROUND\<rparr>"
    let ?t0 = "AwaitRemoveBg I ?f"
    obtain r0 w0 where e0: "removeWhiteBackground W ?f (world s) = (r0, w0)"
      by (cases "removeWhiteBackground W ?f (world s)")
    let ?s1 = "?s0\<lparr>world := w0\<rparr>"
    have a: "handleGenerate_async W I s = go_on W (settle W ?t0 r0 (?s0\<lparr>world := w0\<rparr>))"
      using False rb drive_step [of W ?t0 ?s0 r0 w0] e0
      by (simp add: handleGenerate_async_def start_batch_def go_on_def)
    have p: "prepare_image W I ?f ?pv s = (r0, ?s1)"
      using rb e0 by (simp add: prepare_image_def Let_def)
    show ?thesis
    proof (cases r0)
      case (Inl e)
      then show ?thesis using a p h by (simp add: settle_def go_on_def try_batch_def finish_def)
    next
      case (Inr img)
      have "handleGenerate_async W I s = go_on W (next_await I img (selectedPresetIds I) 0 ?s1)"
        using a Inr by (simp add: settle_def)
      also have "\<dots> = finish (run_presets W I img (length (selectedPresetIds I)) (selectedPresetIds I) 0 ?s1)"
        by (rule go_on_loop) simp
      also have "\<dots> = finish (try_batch W I ?f ?pv s)"
        using p Inr by (simp add: try_batch_def)
      finally show ?thesis using h by simp
    qed
  qed
qed

subsection \<open>Batches that run at once\<close>

lemma next_await_records:
  "generatedImages (fst (next_await I img ids k s)) = generatedImages s"
proof (induction ids arbitrary: s)
  case Nil
  show ?case by simp
next
  case (Cons i ids)
  show ?case
    by (cases "find (\<lambda>p. preset_id p = i) (displayPresets I)") (simp_all add: Cons.IH)
qed

lemma start_batch_records: "generatedImages (fst (start_batch I s)) = generatedImages s"
  by (simp add: start_batch_def next_await_records)

lemma new_image_fields:
  "prompt (fst (new_image W n e u w)) = e \<and> url (fst (new_image W n e u w)) = u
   \<and> vibe (fst (new_image W n e u w)) = n"
  by (simp add: new_image_def Let_def case_prod_beta)

lemma settle_records:
  "generatedImages (fst (settle W t r s)) =
     (case (t, r) of
        (AwaitGenerate I img p e k rest, Inr u) \<Rightarrow>
          fst (new_image W (name p) e u (world s)) # generatedImages s
      | _ \<Rightarrow> generatedImages s)"
proof (cases r)
  case (Inl e)
  then show ?thesis by (cases t) (simp_all add: settle_def)
next
  case (Inr v)
  then show ?thesis
    by (cases t) (simp_all add: settle_def next_await_records case_prod_beta Let_def)
qed

text \<open>
  Whatever else happens on the page in between, the list of records changes in one way
  only: when the image call of a waiting batch returns, one record is put in front of
  the list, with the name of the preset of that iteration, the prompt that image call
  was made with and the URL it returned. Every other event leaves the list as it is.
\<close>

theorem page_step_records:
  "generatedImages (app (page_step W pg ev)) =
     (case ev of
        Settles i (Inr u) \<Rightarrow>
          (if i < length (waiting pg)
           then (case waiting pg ! i of
                   AwaitGenerate I img p e k rest \<Rightarrow>
                     fst (new_image W (name p) e u (world (app pg))) # generatedImages (app pg)
                 | _ \<Rightarrow> generatedImages (app pg))
           else generatedImages (app pg))
      | _ \<Rightarrow> generatedImages (app pg))"
proof (cases ev)
  case (ClickGenerate I)
  then show ?thesis
    using start_batch_records [of I "app pg"]
    by (cases "start_batch I (app pg)") (auto split: option.splits)
next
  case TimerFires
  then show ?thesis by (simp add: reset_timer_fired_def)
next
  case (Settles i r)
  show ?thesis
  proof (cases "i < length (waiting pg)")
    case False
    then show ?thesis using Settles by (simp split: sum.splits)
  next
    case True
    have "generatedImages (app (page_step W pg ev))
        = generatedImages (fst (settle W (waiting pg ! i) r (app pg)))"
      using Settles True
      by (cases "settle W (waiting pg ! i) r (app pg)") (auto split: option.splits)
    then show ?thesis
      using Settles True settle_records [of W "waiting pg ! i" r "app pg"]
      by (cases r; cases "waiting pg ! i") simp_all
  qed
qed

text \<open>
  When the awaited call of a waiting batch throws, the step becomes \<open>ERROR\<close> with the
  fixed message, the batch is no longer waiting, so it makes no further call, and the
  records are left as they are.
\<close>

theorem page_step_failure:
  assumes "i < length (waiting pg)"
  shows "page_step W pg (Settles i (Inl e)) =
           \<lparr>app = (app pg)\<lparr>processingState := SOMETHING_WENT_WRONG\<rparr>,
            waiting = take i (waiting pg) @ drop (i + 1) (waiting pg)\<rparr>"
  using assms by (simp add: settle_def)

text \<open>
  The guard of the Generate button: while the step is none of \<open>IDLE\<close>, \<open>COMPLETED\<close>, \<open>ERROR\<close>, a
  click on the Generate button changes nothing: no batch starts, no call is made, no
  record is added.
\<close>

theorem generate_blocked:
  assumes "step (processingState s) \<noteq> IDLE" "step (processingState s) \<noteq> COMPLETED"
    "step (processingState s) \<noteq> ERROR"
  shows "click_generate W I s = s
     \<and> page_step W \<lparr>app = s, waiting = ts\<rparr> (ClickGenerate I) = \<lparr>app = s, waiting = ts\<rparr>"
  using assms by (simp add: click_generate_def generate_disabled_def)

text \<open>The guard at a click while the background is being removed.\<close>

theorem generate_blocked_witness:
  "step (processingState (example_state\<lparr>processingState := REMOVING_BACKGROUND\<rparr>)) = EXPANDING_PROMPT
   \<and> click_generate example_world (example_inputs [''a''])
         (example_state\<lparr>processingState := REMOVING_BACKGROUND\<rparr>)
       = example_state\<lparr>processingState := REMOVING_BACKGROUND\<rparr>"
  using generate_blocked [of "example_state\<lparr>processingState := REMOVING_BACKGROUND\<rparr>"
      example_world "example_inputs [''a'']" "[]"]
  by (simp add: REMOVING_BACKGROUND_def)

lemma example_disabled:
  "generate_disabled (example_inputs (i # ids)) ps
     \<longleftrightarrow> step ps \<noteq> IDLE \<and> step ps \<noteq> COMPLETED \<and> step ps \<noteq> ERROR"
  by (simp add: generate_disabled_def example_inputs_fields)

lemmas race_simps =
  page_run_def example_page_def example_state_def example_disabled start_batch_def
  example_guard example_inputs_fields settle_def example_find new_image_def
  example_world_fields example_preset_fields Let_def
  REMOVING_BACKGROUND_def ALL_GENERATED_def reset_timer_fired_def

text \<open>
  Claim C6 says that, generation being blocked in every other step, at most one batch
  runs at a time. On the code two batches run at once. The first batch ends in
  \<open>COMPLETED\<close> with its reset timer set. A click starts a second batch, which comes to
  wait for its expansion in step \<open>EXPANDING_PROMPT\<close>. The timer of the first batch
  fires and sets the step to \<open>IDLE\<close> while the second batch is waiting. The next click
  starts a third batch: two batches are waiting for their expansions at once.
\<close>

theorem two_batches_in_flight:
  "waiting (page_run example_world example_page first_batch) = []
   \<and> step (processingState (app (page_run example_world example_page first_batch))) = COMPLETED
   \<and> waiting (page_run example_world example_page second_click)
       = [AwaitExpand (example_inputs [''b'']) ''data:image/png;base64,Q1VU''
            (example_preset ''b'' ''Beach'' ''beach'') 1 []]
   \<and> step (processingState (app (page_run example_world example_page second_click)))
       = EXPANDING_PROMPT
   \<and> step (processingState (app (page_run example_world example_page
              (second_click @ [TimerFires])))) = IDLE
   \<and> waiting (page_run example_world example_page stale_timer_race)
       = [AwaitExpand (example_inputs [''b'']) ''data:image/png;base64,Q1VU''
            (example_preset ''b'' ''Beach'' ''beach'') 1 [],
          AwaitExpand (example_inputs [''c'']) ''data:image/png;base64,Q1VU''
            (example_preset ''c'' ''Loft'' ''loft'') 1 []]"
  by (simp add: stale_timer_race_def second_click_def first_batch_def race_simps)

end
